theory Spec2Isabelle
  imports Complex_Main "HOL-Library.Word"
begin

section \<open>Webhook signatures (webhook-manager.js)\<close>

text \<open>
  A JavaScript string is modelled by the bytes of its UTF-8 encoding, held in a HOL
  \<open>string\<close> (one \<open>char\<close> per byte). \<open>Buffer.from(s)\<close> is then the same bytes as
  an array of 8-bit words, and the byte length of \<open>s\<close> is \<open>length s\<close>.
  JavaScript exceptions are values: \<open>Inl\<close> of the error thrown.
\<close>

type_synonym byte = "8 word"

datatype js_error = TypeError string | RangeError string | Error string

fun message :: "js_error \<Rightarrow> string" where
  "message (TypeError m) = m"
| "message (RangeError m) = m"
| "message (Error m) = m"

definition Buffer_from :: "string \<Rightarrow> byte list" where
  "Buffer_from s = map (\<lambda>c. of_nat (of_char c)) s"

definition hex_digit :: "nat \<Rightarrow> char" where
  "hex_digit n = ''0123456789abcdef'' ! (n mod 16)"

text \<open>\<open>digest('hex')\<close>: two lower-case hexadecimal digits per byte.\<close>

fun hex :: "byte list \<Rightarrow> string" where
  "hex [] = []"
| "hex (b # bs) = hex_digit (unat b div 16) # hex_digit (unat b mod 16) # hex bs"

text \<open>
  \<open>crypto.timingSafeEqual(a, b)\<close> of Node.js: it throws a RangeError when the two buffers
  differ in byte length and compares them otherwise.
\<close>

definition timingSafeEqual :: "byte list \<Rightarrow> byte list \<Rightarrow> js_error + bool" where
  "timingSafeEqual a b =
     (if length a \<noteq> length b
      then Inl (RangeError ''Input buffers must have the same byte length'')
      else Inr (a = b))"

text \<open>
  \<open>_generateSignature(payload, secretKey)\<close>. The HMAC-SHA256 primitive of Node's
  \<open>crypto\<close> (key, message to the 32 digest bytes) and \<open>JSON.stringify\<close> are parameters.
  \<open>crypto.createHmac\<close> throws a TypeError when the key is \<open>undefined\<close>, which is what
  \<open>_queueWebhookDelivery\<close> passes when the webhook row carries no \<open>secret_key\<close>; the
  secret is therefore a \<open>string option\<close>.
\<close>

definition generateSignature ::
  "(string \<Rightarrow> string \<Rightarrow> byte list) \<Rightarrow> ('p \<Rightarrow> string) \<Rightarrow> 'p \<Rightarrow> string option \<Rightarrow> js_error + string"
where
  "generateSignature hmac_sha256 stringify payload secretKey =
     (case secretKey of
        None \<Rightarrow> Inl (TypeError ''The key argument must be of type string. Received undefined'')
      | Some key \<Rightarrow> Inr (hex (hmac_sha256 key (stringify payload))))"

text \<open>\<open>verifyWebhookSignature(payload, signature, secretKey)\<close>.\<close>

definition verifyWebhookSignature ::
  "(string \<Rightarrow> string \<Rightarrow> byte list) \<Rightarrow> ('p \<Rightarrow> string) \<Rightarrow> 'p \<Rightarrow> string \<Rightarrow> string option \<Rightarrow> js_error + bool"
where
  "verifyWebhookSignature hmac_sha256 stringify payload signature secretKey =
     (case generateSignature hmac_sha256 stringify payload secretKey of
        Inl e \<Rightarrow> Inl e
      | Inr expectedSignature \<Rightarrow>
          timingSafeEqual (Buffer_from signature) (Buffer_from expectedSignature))"

section \<open>Webhook registration (webhook-manager.js)\<close>

text \<open>
  \<open>_validateWebhookUrl(url)\<close>. The WHATWG URL parser (\<open>new URL(url)\<close>, which throws on a
  string that is no URL) and the test \<open>process.env.NODE_ENV === 'production'\<close> are
  parameters. Every error raised inside is rethrown with the prefix of the catch block.
\<close>

record parsed_url =
  protocol :: string
  hostname :: string

definition validateWebhookUrl ::
  "(string \<Rightarrow> parsed_url option) \<Rightarrow> bool \<Rightarrow> string \<Rightarrow> js_error + bool"
where
  "validateWebhookUrl parse production url =
     (case parse url of
        None \<Rightarrow> Inl (Error (''Invalid webhook URL: '' @ ''Invalid URL''))
      | Some parsedUrl \<Rightarrow>
          if production \<and> protocol parsedUrl \<noteq> ''https:''
          then Inl (Error (''Invalid webhook URL: '' @ ''Only HTTPS webhooks allowed in production''))
          else if production \<and> (hostname parsedUrl = ''localhost'' \<or> hostname parsedUrl = ''127.0.0.1'')
          then Inl (Error (''Invalid webhook URL: '' @ ''Localhost webhooks not allowed in production''))
          else Inr True)"

definition validEvents :: "string list" where
  "validEvents =
     [''message_sent'', ''message_received'', ''message_failed'', ''message_delivered'',
      ''message_read'', ''client_connected'', ''client_disconnected'', ''campaign_started'',
      ''campaign_completed'', ''automation_triggered'', ''contact_added'', ''contact_updated'',
      ''contact_removed'']"

text \<open>\<open>Array.prototype.join\<close> on strings.\<close>

fun join :: "string \<Rightarrow> string list \<Rightarrow> string" where
  "join sep [] = []"
| "join sep [x] = x"
| "join sep (x # y # ys) = x @ sep @ join sep (y # ys)"

text \<open>
  A row of table \<open>webhooks\<close>, and what \<open>registerWebhook\<close> returns. The table is a list of
  rows in insertion order; the serial \<open>id\<close> of a new row is the number of rows so far plus
  one. \<open>secretKey\<close> stands for \<open>crypto.randomBytes(32).toString('hex')\<close>.
\<close>

record webhook_row =
  row_id :: nat
  row_organization_id :: nat
  row_url :: string
  row_events :: "string list"
  row_secret_key :: string

record registered =
  reg_id :: nat
  reg_url :: string
  reg_events :: "string list"
  reg_secretKey :: string

definition registerWebhook ::
  "(string \<Rightarrow> parsed_url option) \<Rightarrow> bool \<Rightarrow> string \<Rightarrow> nat \<Rightarrow> nat \<Rightarrow> string \<Rightarrow> string list
     \<Rightarrow> webhook_row list \<Rightarrow> js_error + (registered \<times> webhook_row list)"
where
  "registerWebhook parse production secretKey organizationId userId url events webhooks =
     (case validateWebhookUrl parse production url of
        Inl e \<Rightarrow> Inl e
      | Inr _ \<Rightarrow>
          let invalidEvents = filter (\<lambda>e. e \<notin> set validEvents) events in
          if length invalidEvents > 0
          then Inl (Error (''Invalid events: '' @ join '', '' invalidEvents))
          else
            let row = \<lparr>row_id = length webhooks + 1, row_organization_id = organizationId,
                       row_url = url, row_events = events, row_secret_key = secretKey\<rparr>
            in Inr (\<lparr>reg_id = row_id row, reg_url = row_url row, reg_events = row_events row,
                     reg_secretKey = secretKey\<rparr>,
                    webhooks @ [row]))"

section \<open>Webhook delivery (webhook-manager.js)\<close>

text \<open>
  The work item built by \<open>_queueWebhookDelivery\<close>, a row of table \<open>webhook_logs\<close>, and what
  one \<open>axios.post\<close> comes back with: a response of any status (\<open>validateStatus\<close> accepts
  them all) or a rejection (timeout, refused connection, DNS failure) with its message.
  The work item is one JavaScript object from the moment it is queued to its last retry
  (\<open>delivery.retries++\<close> updates it in place); \<open>oid\<close> is the identity of that object, a
  number the model gives it when it is built. It is not a field of the source: it only
  tells which effects belong to which delivery when several are under way.
\<close>

record 'p delivery =
  oid :: nat
  webhookId :: nat
  url :: string
  eventType :: string
  payload :: 'p
  secretKey :: "string option"
  retries :: nat
  maxRetries :: nat

record log_row =
  log_webhook_id :: nat
  log_event_type :: string
  log_payload :: string
  log_status_code :: nat
  log_response_time_ms :: nat
  log_error_message :: "string option"
  log_retry_count :: nat

datatype http_outcome = Response nat string | NetworkFailure string

text \<open>
  The surroundings of the engine: the two library functions above and the subscribers,
  as the outcome of the POST of a delivery (the record holds the URL, the payload and the
  retry counter of the attempt).
\<close>

record 'p env =
  env_hmac :: "string \<Rightarrow> string \<Rightarrow> byte list"
  env_stringify :: "'p \<Rightarrow> string"
  env_post :: "'p delivery \<Rightarrow> http_outcome"

text \<open>
  The state of a \<open>WebhookManager\<close> and the effects it has had: its queue, the callbacks
  handed to \<open>setTimeout\<close> and not yet run (delay in ms, delivery to push back), the table
  \<open>webhook_logs\<close>, and two traces, the outcome of every POST issued and the delay of every
  timer set, all in order. Each row, POST and delay is paired with the \<open>oid\<close> of the
  delivery it belongs to; the rows of the table are the second components.
  \<open>next_oid\<close> is the number of deliveries built so far.
\<close>

record 'p engine =
  this_maxRetries :: nat
  this_timeoutMs :: nat
  eventQueue :: "'p delivery list"
  timers :: "(nat \<times> 'p delivery) list"
  webhook_logs :: "(nat \<times> log_row) list"
  http_posts :: "(nat \<times> http_outcome) list"
  delays :: "(nat \<times> nat) list"
  next_oid :: nat

definition WebhookManager :: "nat \<Rightarrow> nat \<Rightarrow> 'p engine" where
  "WebhookManager maxRetries' timeoutMs' =
     \<lparr>this_maxRetries = maxRetries', this_timeoutMs = timeoutMs', eventQueue = [], timers = [],
      webhook_logs = [], http_posts = [], delays = [], next_oid = 0\<rparr>"

text \<open>\<open>new WebhookManager()\<close>, with the default arguments of the constructor.\<close>

definition new_WebhookManager :: "'p engine" where
  "new_WebhookManager = WebhookManager 3 30000"

text \<open>What is recorded for one delivery: the entries of a trace paired with its \<open>oid\<close>.\<close>

definition owned :: "nat \<Rightarrow> (nat \<times> 'a) list \<Rightarrow> 'a list" where
  "owned j xs = map snd (filter (\<lambda>x. fst x = j) xs)"

text \<open>Decimal digits of a number, as a template literal prints a status code.\<close>

fun dec :: "nat \<Rightarrow> string" where
  "dec n = (if n < 10 then [''0123456789'' ! n]
            else dec (n div 10) @ [''0123456789'' ! (n mod 10)])"

declare dec.simps [simp del]

text \<open>
  \<open>_logWebhookDelivery\<close>: one row appended; \<open>response || null\<close> stores no message for an
  empty one. The insertion is taken to succeed (a database error is swallowed there).
  \<open>owner\<close> is the \<open>oid\<close> of the delivery the row is written for.
\<close>

definition logWebhookDelivery ::
  "('p \<Rightarrow> string) \<Rightarrow> nat \<Rightarrow> nat \<Rightarrow> string \<Rightarrow> 'p \<Rightarrow> nat \<Rightarrow> string \<Rightarrow> nat
     \<Rightarrow> (nat \<times> log_row) list \<Rightarrow> (nat \<times> log_row) list"
where
  "logWebhookDelivery stringify owner webhookId' eventType' payload' statusCode response retryCount table =
     table @ [(owner,
               \<lparr>log_webhook_id = webhookId', log_event_type = eventType',
                log_payload = stringify payload', log_status_code = statusCode,
                log_response_time_ms = 0,
                log_error_message = (if response = [] then None else Some response),
                log_retry_count = retryCount\<rparr>)]"

text \<open>
  \<open>_deliverWebhook(delivery)\<close>: sign, POST, log the response whatever its status, and
  throw unless the status is 200 or 204. An error of the signing or of the POST itself is
  rethrown before anything is logged.
\<close>

definition deliverWebhook :: "'p env \<Rightarrow> 'p delivery \<Rightarrow> 'p engine \<Rightarrow> (js_error + unit) \<times> 'p engine" where
  "deliverWebhook env delivery s =
     (case generateSignature (env_hmac env) (env_stringify env) (payload delivery) (secretKey delivery) of
        Inl e \<Rightarrow> (Inl e, s)
      | Inr signature \<Rightarrow>
          (case env_post env delivery of
             NetworkFailure m \<Rightarrow>
               (Inl (Error m), s\<lparr>http_posts := http_posts s @ [(oid delivery, NetworkFailure m)]\<rparr>)
           | Response status statusText \<Rightarrow>
               let s' = s\<lparr>http_posts := http_posts s @ [(oid delivery, Response status statusText)],
                          webhook_logs := logWebhookDelivery (env_stringify env) (oid delivery)
                            (webhookId delivery) (eventType delivery) (payload delivery) status
                            statusText (retries delivery) (webhook_logs s)\<rparr>
               in if status \<noteq> 200 \<and> status \<noteq> 204
                  then (Inl (Error (''Webhook returned '' @ dec status @ '': '' @ statusText)), s')
                  else (Inr (), s')))"

text \<open>
  \<open>setTimeout(callback, delay)\<close> of Node.js: a delay above \<open>2^31 - 1\<close> ms or below 1 ms is
  set to 1 ms. (\<open>Math.pow(2, n) * 1000\<close> is exact in double precision up to \<open>n = 1014\<close> and
  infinite beyond, so the timer set for the natural number \<open>2 ^ n * 1000\<close> is the timer Node
  sets.)
\<close>

definition setTimeout_ms :: "nat \<Rightarrow> nat" where
  "setTimeout_ms delay = (if delay > 2147483647 \<or> delay < 1 then 1 else delay)"

text \<open>
  The catch block of \<open>_processQueue\<close>: while \<open>retries < maxRetries\<close> the counter is
  incremented and the delivery handed to \<open>setTimeout\<close> with delay \<open>2 ^ retries * 1000\<close> ms
  (the incremented counter); otherwise the failure is logged with status 500.
\<close>

definition retryOrFail :: "'p env \<Rightarrow> js_error \<Rightarrow> 'p delivery \<Rightarrow> 'p engine \<Rightarrow> 'p engine" where
  "retryOrFail env error delivery s =
     (if retries delivery < maxRetries delivery
      then
        let delivery' = delivery\<lparr>retries := retries delivery + 1\<rparr>;
            delay = 2 ^ retries delivery' * 1000
        in s\<lparr>timers := timers s @ [(setTimeout_ms delay, delivery')],
             delays := delays s @ [(oid delivery, setTimeout_ms delay)]\<rparr>
      else
        s\<lparr>webhook_logs := logWebhookDelivery (env_stringify env) (oid delivery)
             (webhookId delivery) (eventType delivery) (payload delivery) 500 (message error)
             (retries delivery) (webhook_logs s)\<rparr>)"

definition tryDelivery :: "'p env \<Rightarrow> 'p delivery \<Rightarrow> 'p engine \<Rightarrow> 'p engine" where
  "tryDelivery env delivery s =
     (case deliverWebhook env delivery s of
        (Inr _, s') \<Rightarrow> s'
      | (Inl error, s') \<Rightarrow> retryOrFail env error delivery s')"

text \<open>
  \<open>_processQueue()\<close>: nothing on an empty queue; otherwise the head is shifted off and
  tried, and while the queue is not empty \<open>setImmediate\<close> runs \<open>_processQueue\<close> again.
\<close>

function processQueue :: "'p env \<Rightarrow> 'p engine \<Rightarrow> 'p engine" where
  "processQueue env s =
     (case eventQueue s of
        [] \<Rightarrow> s
      | delivery # rest \<Rightarrow>
          let s' = tryDelivery env delivery (s\<lparr>eventQueue := rest\<rparr>)
          in if length (eventQueue s') > 0 then processQueue env s' else s')"
  by pat_completeness auto
termination
  by (relation "measure (\<lambda>(env, s). length (eventQueue s))")
    (auto simp add: tryDelivery_def deliverWebhook_def retryOrFail_def Let_def
      split: sum.splits http_outcome.splits prod.splits if_splits)

declare processQueue.simps [simp del]

text \<open>
  \<open>_queueWebhookDelivery(webhook, eventType, payload)\<close>: the work item starts with
  \<open>retries = 0\<close> and the manager's \<open>maxRetries\<close>, is pushed and the queue processed.
  The webhook is given by its \<open>id\<close>, \<open>url\<close> and \<open>secret_key\<close>.
\<close>

definition queueWebhookDelivery ::
  "'p env \<Rightarrow> nat \<times> string \<times> string option \<Rightarrow> string \<Rightarrow> 'p \<Rightarrow> 'p engine \<Rightarrow> 'p engine"
where
  "queueWebhookDelivery env webhook eventType' payload' s =
     (case webhook of (webhook_id, webhook_url, webhook_secret_key) \<Rightarrow>
        let delivery = \<lparr>oid = next_oid s, webhookId = webhook_id, url = webhook_url,
                         eventType = eventType', payload = payload',
                         secretKey = webhook_secret_key, retries = 0,
                         maxRetries = this_maxRetries s\<rparr>
        in processQueue env (s\<lparr>next_oid := next_oid s + 1,
                                eventQueue := eventQueue s @ [delivery]\<rparr>))"

text \<open>The callback of \<open>setTimeout\<close>: the delivery is pushed back and the queue processed.\<close>

definition fireTimer :: "'p env \<Rightarrow> 'p delivery \<Rightarrow> 'p engine \<Rightarrow> 'p engine" where
  "fireTimer env delivery s = processQueue env (s\<lparr>eventQueue := eventQueue s @ [delivery]\<rparr>)"

text \<open>
  The event loop. At any moment an event may be triggered for a subscription and a
  delivery queued, or one of the pending timers may run out, whichever it is: the order in
  which Node runs timers depends on their delays and on how long the POSTs of the other
  deliveries take, so every order is allowed here. One attempt (sign, POST, log, catch) is
  one step; the attempts of different deliveries only append to the table and the traces,
  so letting them overlap would not change what is recorded for each delivery.
  \<open>running env s\<close>: the manager can be in state \<open>s\<close>, no attempt being under way.
\<close>

inductive event_loop :: "'p env \<Rightarrow> 'p engine \<Rightarrow> 'p engine \<Rightarrow> bool" for env :: "'p env" where
  trigger: "event_loop env s (queueWebhookDelivery env webhook ev p s)"
| timeout: "timers s = before @ (delay, d) # after \<Longrightarrow>
            event_loop env s (fireTimer env d (s\<lparr>timers := before @ after\<rparr>))"

inductive running :: "'p env \<Rightarrow> 'p engine \<Rightarrow> bool" for env :: "'p env" where
  constructed: "running env (WebhookManager m t)"
| step: "running env s \<Longrightarrow> event_loop env s s' \<Longrightarrow> running env s'"

text \<open>
  The retries a delivery has left, and a bound on the timer callbacks that can still run
  if no further event is triggered: a delivery that waits for a timer has that callback
  and one more for each retry it has left to come.
\<close>

definition budget :: "'p delivery \<Rightarrow> nat" where
  "budget d = maxRetries d - retries d"

definition pending :: "'p engine \<Rightarrow> nat" where
  "pending s = sum_list (map (\<lambda>(delay, d). Suc (budget d)) (timers s))
               + sum_list (map budget (eventQueue s))"

text \<open>Towards the termination of \<open>runTimers\<close>: trying a delivery leaves the queue alone and
  sets at most one timer, for a delivery with one retry less to go.\<close>

lemma eventQueue_tryDelivery: "eventQueue (tryDelivery env d s) = eventQueue s"
  by (simp add: tryDelivery_def deliverWebhook_def retryOrFail_def Let_def
      split: sum.splits http_outcome.splits prod.splits)

lemma pending_tryDelivery: "pending (tryDelivery env d s) \<le> pending s + budget d"
  by (auto simp add: tryDelivery_def deliverWebhook_def retryOrFail_def Let_def pending_def
      budget_def split: sum.splits http_outcome.splits)

lemma pending_processQueue: "pending (processQueue env s) \<le> pending s"
proof (induction env s rule: processQueue.induct)
  case (1 env s)
  show ?case
  proof (cases "eventQueue s")
    case Nil
    then show ?thesis by (simp add: processQueue.simps)
  next
    case (Cons d rest)
    let ?s' = "tryDelivery env d (s\<lparr>eventQueue := rest\<rparr>)"
    have "pending (s\<lparr>eventQueue := rest\<rparr>) + budget d = pending s"
      using Cons by (simp add: pending_def)
    with pending_tryDelivery [of env d "s\<lparr>eventQueue := rest\<rparr>"]
    have le: "pending ?s' \<le> pending s" by simp
    show ?thesis
    proof (cases "length (eventQueue ?s') > 0")
      case True
      from "1.IH" [OF Cons refl True] have "pending (processQueue env ?s') \<le> pending ?s'" .
      with le True Cons show ?thesis
        by (subst processQueue.simps) (simp add: Let_def)
    next
      case False
      with le Cons show ?thesis
        by (subst processQueue.simps) (simp add: Let_def)
    qed
  qed
qed

text \<open>
  One run of the event loop with no further event triggered, until no timer is left: of
  the pending timers, the one set first runs out first. Node runs timers in the order of
  their expiry, which this is when a single delivery is under way (there is one timer at
  a time) and need not be otherwise; \<open>runTimers\<close> is not used as the course of the engine,
  which is \<open>running\<close>, but as one of the runs that \<open>event_loop\<close> allows, to reach a state in
  which no delivery waits.
\<close>

function runTimers :: "'p env \<Rightarrow> 'p engine \<Rightarrow> 'p engine" where
  "runTimers env s =
     (case timers s of
        [] \<Rightarrow> s
      | (delay, delivery) # rest \<Rightarrow> runTimers env (fireTimer env delivery (s\<lparr>timers := rest\<rparr>)))"
  by pat_completeness auto
termination
proof (relation "measure (\<lambda>(env, s). pending s)")
  fix env :: "'p env" and s :: "'p engine" and x rest delay delivery
  assume t: "timers s = x # rest" and x: "(delay, delivery) = x"
  have "pending (fireTimer env delivery (s\<lparr>timers := rest\<rparr>))
          \<le> pending (s\<lparr>timers := rest, eventQueue := eventQueue s @ [delivery]\<rparr>)"
    unfolding fireTimer_def using pending_processQueue [of env] by simp
  also have "\<dots> < pending s"
    using t x by (auto simp add: pending_def)
  finally show "((env, fireTimer env delivery (s\<lparr>timers := rest\<rparr>)), (env, s))
                  \<in> measure (\<lambda>(env, s). pending s)"
    by simp
qed simp

declare runTimers.simps [simp del]

text \<open>
  The course of one delivery on an otherwise idle engine, written out: try; on an error
  with retries left, note the delay and try again with the counter incremented; on an
  error with none left, log the failure. \<open>runTimers_saga\<close> below shows that this is what
  the event loop does there.
\<close>

function saga :: "'p env \<Rightarrow> 'p delivery \<Rightarrow> 'p engine \<Rightarrow> 'p engine" where
  "saga env d s =
     (case deliverWebhook env d s of
        (Inr ok, s') \<Rightarrow> s'
      | (Inl e, s') \<Rightarrow>
          if retries d < maxRetries d
          then saga env (d\<lparr>retries := retries d + 1\<rparr>)
                 (s'\<lparr>delays := delays s' @ [(oid d, setTimeout_ms (2 ^ (retries d + 1) * 1000))]\<rparr>)
          else s'\<lparr>webhook_logs := logWebhookDelivery (env_stringify env) (oid d) (webhookId d)
                 (eventType d) (payload d) 500 (message e) (retries d) (webhook_logs s')\<rparr>)"
  by pat_completeness auto
termination
  by (relation "measure (\<lambda>(env, d, s). budget d)") (auto simp add: budget_def)

declare saga.simps [simp del]

text \<open>A response that ends a delivery, a POST that was answered, and a logged row that
  records a delivery.\<close>

fun accepted :: "http_outcome \<Rightarrow> bool" where
  "accepted (Response status statusText) = (status = 200 \<or> status = 204)"
| "accepted (NetworkFailure m) = False"

fun answered :: "http_outcome \<Rightarrow> bool" where
  "answered (Response status statusText) = True"
| "answered (NetworkFailure m) = False"

definition delivered :: "log_row \<Rightarrow> bool" where
  "delivered r \<longleftrightarrow> log_status_code r = 200 \<or> log_status_code r = 204"

text \<open>The delay of the timer set after the attempt with counter \<open>attempt\<close> has failed.\<close>

definition backoff :: "nat \<Rightarrow> nat" where
  "backoff attempt = setTimeout_ms (2 ^ (attempt + 1) * 1000)"

text \<open>
  What holds of the rows, POSTs and delays of a delivery while it waits for a retry, and
  once it has come to its end (\<open>m\<close> is the manager's \<open>maxRetries\<close>).
\<close>

definition midway :: "'p engine \<Rightarrow> 'p delivery \<Rightarrow> bool" where
  "midway s d \<longleftrightarrow>
     retries d \<le> maxRetries d
     \<and> (\<forall>r \<in> set (owned (oid d) (webhook_logs s)). \<not> delivered r)
     \<and> length (owned (oid d) (webhook_logs s))
         = length (filter answered (owned (oid d) (http_posts s)))
     \<and> (\<forall>p \<in> set (owned (oid d) (http_posts s)). \<not> accepted p)
     \<and> (secretKey d = None \<longrightarrow> owned (oid d) (http_posts s) = [])
     \<and> (secretKey d \<noteq> None \<longrightarrow> length (owned (oid d) (http_posts s)) = retries d)
     \<and> owned (oid d) (delays s) = map backoff [0 ..< retries d]"

definition ended :: "nat \<Rightarrow> log_row list \<Rightarrow> http_outcome list \<Rightarrow> nat list \<Rightarrow> bool" where
  "ended m rows posts dls \<longleftrightarrow>
     rows \<noteq> []
     \<and> (\<forall>r \<in> set (butlast rows). \<not> delivered r)
     \<and> length posts \<le> Suc m
     \<and> (\<exists>n \<le> m. dls = map backoff [0 ..< n])
     \<and> (delivered (last rows) \<and> length rows = length (filter answered posts)
           \<and> posts \<noteq> [] \<and> accepted (last posts)
         \<or> log_status_code (last rows) = 500 \<and> log_retry_count (last rows) = m
           \<and> length rows = Suc (length (filter answered posts))
           \<and> (\<forall>p \<in> set posts. \<not> accepted p)
           \<and> (posts = [] \<or> length posts = Suc m)
           \<and> length dls = m)"

definition finished :: "'p engine \<Rightarrow> nat \<Rightarrow> bool" where
  "finished s j \<longleftrightarrow>
     ended (this_maxRetries s) (owned j (webhook_logs s)) (owned j (http_posts s))
       (owned j (delays s))"

text \<open>The deliveries that wait for a retry, by their \<open>oid\<close>.\<close>

definition waiting :: "'p engine \<Rightarrow> nat list" where
  "waiting s = map (\<lambda>t. oid (snd t)) (timers s)"

definition engine_inv :: "'p engine \<Rightarrow> bool" where
  "engine_inv s \<longleftrightarrow>
     eventQueue s = []
     \<and> distinct (waiting s)
     \<and> (\<forall>t \<in> set (timers s). oid (snd t) < next_oid s
            \<and> maxRetries (snd t) = this_maxRetries s \<and> midway s (snd t))
     \<and> (\<forall>j < next_oid s. j \<notin> set (waiting s) \<longrightarrow> finished s j)
     \<and> (\<forall>j \<ge> next_oid s. owned j (webhook_logs s) = [] \<and> owned j (http_posts s) = []
            \<and> owned j (delays s) = [])"

section \<open>Anti-ban manager (unnamed/part_006)\<close>

text \<open>
  JavaScript numbers are modelled exactly: counters as naturals, clock readings
  (\<open>Date.now()\<close>, in ms) as integers, and the ceilings, which the code divides by two, and the
  random draws as rationals. \<open>this.rateLimits\<close> is a map from client ids to limiters.
\<close>

record rate_window =
  max_limit :: rat
  current :: nat
  window :: int

record rate_limits =
  perMinute :: rate_window
  perHour :: rate_window
  perDay :: rate_window

record limiter =
  clientId :: string
  limits :: rate_limits
  suspiciousActivityCount :: nat
  adaptiveThreshold :: rat

text \<open>
  \<open>initializeRateLimiter(clientId, organizationId)\<close>; the three arguments \<open>t1 t2 t3\<close> are
  the three readings of \<open>Date.now()\<close>.
\<close>

definition initializeRateLimiter ::
  "string \<Rightarrow> nat \<Rightarrow> int \<Rightarrow> int \<Rightarrow> int \<Rightarrow> (string \<rightharpoonup> limiter) \<Rightarrow> limiter \<times> (string \<rightharpoonup> limiter)"
where
  "initializeRateLimiter cid organizationId t1 t2 t3 rateLimits =
     (let l = \<lparr>clientId = cid,
                limits = \<lparr>perMinute = \<lparr>max_limit = 20, current = 0, window = t1\<rparr>,
                           perHour = \<lparr>max_limit = 100, current = 0, window = t2\<rparr>,
                           perDay = \<lparr>max_limit = 1000, current = 0, window = t3\<rparr>\<rparr>,
                suspiciousActivityCount = 0,
                adaptiveThreshold = 8 / 10\<rparr>
      in (l, rateLimits(cid \<mapsto> l)))"

text \<open>
  What \<open>canSendMessage\<close> returns: an object with \<open>allowed\<close> and, depending on the branch,
  \<open>reason\<close>, \<open>retryAfter\<close> or \<open>warnings\<close>.
\<close>

record admission =
  allowed :: bool
  reason :: "string option"
  retryAfter :: "nat option"
  warnings :: "string list option"

text \<open>The window refresh that \<open>canSendMessage\<close> applies to each of the three windows.\<close>

definition refreshWindow :: "int \<Rightarrow> int \<Rightarrow> rate_window \<Rightarrow> rate_window" where
  "refreshWindow now duration w =
     (if now - window w > duration then w\<lparr>current := 0, window := now\<rparr> else w)"

definition refreshLimits :: "int \<Rightarrow> rate_limits \<Rightarrow> rate_limits" where
  "refreshLimits now lm =
     \<lparr>perMinute = refreshWindow now 60000 (perMinute lm),
      perHour = refreshWindow now 3600000 (perHour lm),
      perDay = refreshWindow now 86400000 (perDay lm)\<rparr>"

text \<open>\<open>canSendMessage(clientId)\<close>, with \<open>now\<close> the reading of \<open>Date.now()\<close>.\<close>

definition canSendMessage ::
  "string \<Rightarrow> int \<Rightarrow> (string \<rightharpoonup> limiter) \<Rightarrow> admission \<times> (string \<rightharpoonup> limiter)"
where
  "canSendMessage cid now rateLimits =
     (case rateLimits cid of
        None \<Rightarrow>
          (\<lparr>allowed = True, reason = Some ''No limiter'', retryAfter = None, warnings = None\<rparr>,
           rateLimits)
      | Some l \<Rightarrow>
          let lm = refreshLimits now (limits l);
              rateLimits' = rateLimits(cid \<mapsto> l\<lparr>limits := lm\<rparr>);
              minuteThreshold = max_limit (perMinute lm) * adaptiveThreshold l;
              hourThreshold = max_limit (perHour lm) * adaptiveThreshold l;
              dayThreshold = max_limit (perDay lm) * adaptiveThreshold l
          in
            if of_nat (current (perMinute lm)) \<ge> max_limit (perMinute lm)
            then (\<lparr>allowed = False, reason = Some ''Per-minute limit exceeded'',
                    retryAfter = Some 60, warnings = None\<rparr>, rateLimits')
            else if of_nat (current (perHour lm)) \<ge> max_limit (perHour lm)
            then (\<lparr>allowed = False, reason = Some ''Per-hour limit exceeded'',
                    retryAfter = Some 3600, warnings = None\<rparr>, rateLimits')
            else if of_nat (current (perDay lm)) \<ge> max_limit (perDay lm)
            then (\<lparr>allowed = False, reason = Some ''Per-day limit exceeded'',
                    retryAfter = Some 86400, warnings = None\<rparr>, rateLimits')
            else
              (\<lparr>allowed = True, reason = None, retryAfter = None,
                warnings = Some
                  ((if of_nat (current (perMinute lm)) \<ge> minuteThreshold
                    then [''Approaching per-minute limit''] else [])
                   @ (if of_nat (current (perHour lm)) \<ge> hourThreshold
                      then [''Approaching per-hour limit''] else [])
                   @ (if of_nat (current (perDay lm)) \<ge> dayThreshold
                      then [''Approaching per-day limit''] else []))\<rparr>,
               rateLimits'))"

text \<open>\<open>recordMessageSend(clientId)\<close>.\<close>

definition bump :: "rate_window \<Rightarrow> rate_window" where
  "bump w = w\<lparr>current := current w + 1\<rparr>"

definition recordMessageSend :: "string \<Rightarrow> (string \<rightharpoonup> limiter) \<Rightarrow> (string \<rightharpoonup> limiter)" where
  "recordMessageSend cid rateLimits =
     (case rateLimits cid of
        None \<Rightarrow> rateLimits
      | Some l \<Rightarrow>
          rateLimits(cid \<mapsto> l\<lparr>limits := \<lparr>perMinute = bump (perMinute (limits l)),
                                             perHour = bump (perHour (limits l)),
                                             perDay = bump (perDay (limits l))\<rparr>\<rparr>))"

text \<open>
  \<open>triggerProtectiveMeasures(clientId)\<close> and \<open>detectSuspiciousActivity(clientId, activity)\<close>.
  The rows they insert in table \<open>ban_alerts\<close> are left out: nothing reads them here.
\<close>

definition triggerProtectiveMeasures :: "string \<Rightarrow> (string \<rightharpoonup> limiter) \<Rightarrow> (string \<rightharpoonup> limiter)" where
  "triggerProtectiveMeasures cid rateLimits =
     (case rateLimits cid of
        None \<Rightarrow> rateLimits
      | Some l \<Rightarrow>
          rateLimits(cid \<mapsto> l\<lparr>limits := (limits l)\<lparr>perMinute := (perMinute (limits l))
            \<lparr>max_limit := max 5 (max_limit (perMinute (limits l)) / 2)\<rparr>\<rparr>\<rparr>))"

record activity =
  messagesSentInSequence :: nat
  failureRate :: rat
  ipChangesInHour :: nat
  geoLocationJump :: rat
  unusualMessageContent :: bool

definition suspiciousPatterns :: "activity \<Rightarrow> bool list" where
  "suspiciousPatterns act =
     [messagesSentInSequence act > 10,
      failureRate act > 3 / 10,
      ipChangesInHour act > 3,
      geoLocationJump act > 1000,
      unusualMessageContent act]"

definition detectSuspiciousActivity ::
  "string \<Rightarrow> activity \<Rightarrow> (string \<rightharpoonup> limiter) \<Rightarrow> bool \<times> (string \<rightharpoonup> limiter)"
where
  "detectSuspiciousActivity cid act rateLimits =
     (case rateLimits cid of
        None \<Rightarrow> (False, rateLimits)
      | Some l \<Rightarrow>
          let isSuspicious = list_ex (\<lambda>p. p) (suspiciousPatterns act)
          in
            if isSuspicious
            then
              let l' = l\<lparr>suspiciousActivityCount := suspiciousActivityCount l + 1\<rparr>;
                  rateLimits' = rateLimits(cid \<mapsto> l')
              in if suspiciousActivityCount l' > 3
                 then (isSuspicious, triggerProtectiveMeasures cid rateLimits')
                 else (isSuspicious, rateLimits')
            else (isSuspicious, rateLimits))"

text \<open>
  \<open>_randomDelay(min, max)\<close> and \<open>simulateHumanBehavior(clientId, action)\<close>. \<open>rnd i\<close> is the
  value of the \<open>i\<close>-th call of \<open>Math.random()\<close>, a number in \<open>[0, 1)\<close>. The function awaits a
  timer of the delay it computes and resolves to \<open>true\<close>: the result is that value together
  with the list of the delays it slept.
\<close>

definition randomDelay :: "rat \<Rightarrow> rat \<Rightarrow> rat \<Rightarrow> rat" where
  "randomDelay u lo hi = u * (hi - lo) + lo"

definition simulateHumanBehavior :: "(nat \<Rightarrow> rat) \<Rightarrow> string \<Rightarrow> string \<Rightarrow> bool \<times> rat list" where
  "simulateHumanBehavior rnd cid action =
     (if action = ''type'' then (True, [randomDelay (rnd 0) 60 100])
      else if action = ''mouse'' then (True, [randomDelay (rnd 0) 100 300])
      else if action = ''scroll'' then (True, [randomDelay (rnd 0) 200 500])
      else if action = ''message''
      then (True, [if rnd 0 < 1 / 10 then randomDelay (rnd 1) 5000 15000
                   else randomDelay (rnd 1) 2000 5000])
      else (True, []))"

text \<open>
  The states of \<open>this.rateLimits\<close> that the class can reach from the empty map by its own
  methods.
\<close>

inductive reachable :: "(string \<rightharpoonup> limiter) \<Rightarrow> bool" where
  start: "reachable Map.empty"
| initialize: "reachable m \<Longrightarrow> reachable (snd (initializeRateLimiter cid org t1 t2 t3 m))"
| check: "reachable m \<Longrightarrow> reachable (snd (canSendMessage cid now m))"
| record_send: "reachable m \<Longrightarrow> reachable (recordMessageSend cid m)"
| detect: "reachable m \<Longrightarrow> reachable (snd (detectSuspiciousActivity cid act m))"
| protect: "reachable m \<Longrightarrow> reachable (triggerProtectiveMeasures cid m)"

text \<open>The three windows of a limiter, and the time left in a window, in seconds, as the
  specification words the retry hint: from \<open>now\<close> to the moment the window resets.\<close>

definition windows :: "limiter \<Rightarrow> rate_window list" where
  "windows l = [perMinute (limits l), perHour (limits l), perDay (limits l)]"

definition remainingSeconds :: "int \<Rightarrow> int \<Rightarrow> rate_window \<Rightarrow> int" where
  "remainingSeconds now duration w = (window w + duration - now) div 1000"

text \<open>The ceilings a limiter can have: those of \<open>initializeRateLimiter\<close>, the per-minute
  one possibly halved by \<open>triggerProtectiveMeasures\<close>.\<close>

definition ceilings_ok :: "limiter \<Rightarrow> bool" where
  "ceilings_ok l \<longleftrightarrow>
     max_limit (perMinute (limits l)) \<in> {20, 10, 5}
     \<and> max_limit (perHour (limits l)) = 100
     \<and> max_limit (perDay (limits l)) = 1000"

text \<open>A window whose count has reached its ceiling.\<close>

definition exhausted :: "rate_window \<Rightarrow> bool" where
  "exhausted w \<longleftrightarrow> of_nat (current w) \<ge> max_limit w"


section \<open>Properties of the signatures\<close>



lemma length_Buffer_from: "length (Buffer_from s) = length s"
  by (simp add: Buffer_from_def)

lemma length_hex: "length (hex bs) = 2 * length bs"
  by (induction bs) simp_all



text \<open>
  C10. With a 32-byte digest the expected signature has 64 bytes; a candidate of any other
  byte length makes verification throw (the RangeError of \<open>timingSafeEqual\<close>), and a
  boolean is returned exactly for candidates of 64 bytes.
\<close>

theorem verify_raises_on_length_mismatch:
  assumes "\<And>key msg. length (hmac key msg) = 32"
  shows "(length signature \<noteq> 64 \<longrightarrow>
            verifyWebhookSignature hmac js p signature (Some k)
              = Inl (RangeError ''Input buffers must have the same byte length''))
         \<and> ((\<exists>b. verifyWebhookSignature hmac js p signature (Some k) = Inr b)
              \<longleftrightarrow> length signature = 64)"
  using assms
  by (auto simp add: verifyWebhookSignature_def generateSignature_def timingSafeEqual_def
      length_Buffer_from length_hex)

theorem verify_raises_on_length_mismatch_witness:
  "verifyWebhookSignature (\<lambda>k m. replicate 32 0) (\<lambda>p. p) ''{}'' ''00ff'' (Some ''s3cr3t'')
     = Inl (RangeError ''Input buffers must have the same byte length'')
   \<and> (\<exists>b. verifyWebhookSignature (\<lambda>k m. replicate 32 0) (\<lambda>p. p) ''{}''
             (replicate 64 CHR ''0'') (Some ''s3cr3t'') = Inr b)"
  using verify_raises_on_length_mismatch [of "\<lambda>k m. replicate 32 0" "''00ff''" "\<lambda>p. p" "''{}''" "''s3cr3t''"]
    verify_raises_on_length_mismatch [of "\<lambda>k m. replicate 32 0" "replicate 64 CHR ''0''" "\<lambda>p. p" "''{}''" "''s3cr3t''"]
  by simp

section \<open>Properties of the webhook delivery\<close>

lemma owned_simps [simp]:
  "owned j [] = []"
  "owned j (xs @ ys) = owned j xs @ owned j ys"
  "owned j ((i, x) # xs) = (if i = j then x # owned j xs else owned j xs)"
  by (simp_all add: owned_def)

lemma timers_idle: "timers s = [] \<Longrightarrow> s\<lparr>timers := []\<rparr> = s"
  by (cases s) simp

lemma eventQueue_idle: "eventQueue s = [] \<Longrightarrow> s\<lparr>eventQueue := []\<rparr> = s"
  by (cases s) simp

lemma deliverWebhook_frame:
  "eventQueue (snd (deliverWebhook env d s)) = eventQueue s"
  "timers (snd (deliverWebhook env d s)) = timers s"
  "delays (snd (deliverWebhook env d s)) = delays s"
  "this_maxRetries (snd (deliverWebhook env d s)) = this_maxRetries s"
  "next_oid (snd (deliverWebhook env d s)) = next_oid s"
  by (simp_all add: deliverWebhook_def Let_def split: sum.splits http_outcome.splits)

lemma processQueue_single:
  assumes "eventQueue s = []"
  shows "processQueue env (s\<lparr>eventQueue := [d]\<rparr>) = tryDelivery env d s"
proof -
  have "eventQueue (tryDelivery env d s) = []"
    using assms by (simp add: eventQueue_tryDelivery)
  then show ?thesis
    by (subst processQueue.simps) (simp add: Let_def eventQueue_idle [OF assms])
qed

lemma fireTimer_idle: "eventQueue s = [] \<Longrightarrow> fireTimer env d s = tryDelivery env d s"
  by (simp add: fireTimer_def processQueue_single)

lemma runTimers_idle: "timers s = [] \<Longrightarrow> runTimers env s = s"
  by (subst runTimers.simps) simp

text \<open>What one call of \<open>_deliverWebhook\<close> can do.\<close>

lemma deliverWebhook_cases:
  obtains
    (unsigned) e where "secretKey d = None" and "deliverWebhook env d s = (Inl e, s)"
  | (unreachable) k m where "secretKey d = Some k" and "env_post env d = NetworkFailure m"
      and "deliverWebhook env d s =
        (Inl (Error m), s\<lparr>http_posts := http_posts s @ [(oid d, NetworkFailure m)]\<rparr>)"
  | (refused) k status statusText where "secretKey d = Some k"
      and "env_post env d = Response status statusText" and "status \<noteq> 200" and "status \<noteq> 204"
      and "deliverWebhook env d s =
        (Inl (Error (''Webhook returned '' @ dec status @ '': '' @ statusText)),
         s\<lparr>http_posts := http_posts s @ [(oid d, Response status statusText)],
           webhook_logs := logWebhookDelivery (env_stringify env) (oid d) (webhookId d)
             (eventType d) (payload d) status statusText (retries d) (webhook_logs s)\<rparr>)"
  | (taken) k status statusText where "secretKey d = Some k"
      and "env_post env d = Response status statusText" and "status = 200 \<or> status = 204"
      and "deliverWebhook env d s =
        (Inr (),
         s\<lparr>http_posts := http_posts s @ [(oid d, Response status statusText)],
           webhook_logs := logWebhookDelivery (env_stringify env) (oid d) (webhookId d)
             (eventType d) (payload d) status statusText (retries d) (webhook_logs s)\<rparr>)"
proof (cases "secretKey d")
  case None
  then show ?thesis
    by (intro unsigned) (simp_all add: deliverWebhook_def generateSignature_def)
next
  case (Some k)
  show ?thesis
  proof (cases "env_post env d")
    case (NetworkFailure m)
    with Some show ?thesis
      by (intro unreachable) (simp_all add: deliverWebhook_def generateSignature_def)
  next
    case (Response status statusText)
    show ?thesis
    proof (cases "status = 200 \<or> status = 204")
      case True
      with Some Response show ?thesis
        by (intro taken [of k status statusText])
          (auto simp add: deliverWebhook_def generateSignature_def Let_def)
    next
      case False
      with Some Response show ?thesis
        by (intro refused [of k status statusText])
          (auto simp add: deliverWebhook_def generateSignature_def Let_def)
    qed
  qed
qed

text \<open>What a failed and what a successful call of \<open>_deliverWebhook\<close> leave behind: at most
  one POST and one row, both of the delivery, and nothing else changed.\<close>

lemma deliverWebhook_fails:
  assumes "deliverWebhook env d s = (Inl e, s1)"
  obtains rows posts where
    "s1 = s\<lparr>http_posts := http_posts s @ map (Pair (oid d)) posts,
            webhook_logs := webhook_logs s @ map (Pair (oid d)) rows\<rparr>"
    and "length rows = length (filter answered posts)"
    and "\<forall>r \<in> set rows. \<not> delivered r" and "\<forall>p \<in> set posts. \<not> accepted p"
    and "secretKey d = None \<longrightarrow> posts = []" and "secretKey d \<noteq> None \<longrightarrow> length posts = 1"
proof (cases rule: deliverWebhook_cases [of d env s])
  case (unsigned e')
  with assms have "s1 = s" by simp
  with unsigned(1) show ?thesis
    by (intro that [of "[]" "[]"]) simp_all
next
  case (unreachable k m)
  with assms show ?thesis
    by (intro that [of "[]" "[NetworkFailure m]"]) auto
next
  case (refused k status statusText)
  with assms show ?thesis
    by (intro that [of
          "[\<lparr>log_webhook_id = webhookId d, log_event_type = eventType d,
             log_payload = env_stringify env (payload d), log_status_code = status,
             log_response_time_ms = 0,
             log_error_message = (if statusText = [] then None else Some statusText),
             log_retry_count = retries d\<rparr>]" "[Response status statusText]"])
      (auto simp add: logWebhookDelivery_def delivered_def)
next
  case (taken k status statusText)
  with assms show ?thesis by simp
qed

lemma deliverWebhook_succeeds:
  assumes "deliverWebhook env d s = (Inr ok, s1)"
  obtains row post where
    "s1 = s\<lparr>http_posts := http_posts s @ [(oid d, post)],
            webhook_logs := webhook_logs s @ [(oid d, row)]\<rparr>"
    and "delivered row" and "answered post" and "accepted post" and "secretKey d \<noteq> None"
proof (cases rule: deliverWebhook_cases [of d env s])
  case (taken k status statusText)
  with assms show ?thesis
    by (intro that [of
          "\<lparr>log_webhook_id = webhookId d, log_event_type = eventType d,
             log_payload = env_stringify env (payload d), log_status_code = status,
             log_response_time_ms = 0,
             log_error_message = (if statusText = [] then None else Some statusText),
             log_retry_count = retries d\<rparr>" "Response status statusText"])
      (auto simp add: logWebhookDelivery_def delivered_def)
qed (use assms in simp_all)

lemma owned_Pair [simp]: "owned j (map (Pair i) xs) = (if i = j then xs else [])"
  by (induction xs) auto

lemma tryDelivery_frame:
  "next_oid (tryDelivery env d s) = next_oid s"
  "this_maxRetries (tryDelivery env d s) = this_maxRetries s"
  "j \<noteq> oid d \<Longrightarrow> owned j (webhook_logs (tryDelivery env d s)) = owned j (webhook_logs s)"
  "j \<noteq> oid d \<Longrightarrow> owned j (http_posts (tryDelivery env d s)) = owned j (http_posts s)"
  "j \<noteq> oid d \<Longrightarrow> owned j (delays (tryDelivery env d s)) = owned j (delays s)"
  by (auto simp add: tryDelivery_def deliverWebhook_def retryOrFail_def Let_def
      logWebhookDelivery_def split: sum.splits http_outcome.splits)

lemma ended_failed:
  assumes "\<forall>r \<in> set rows. \<not> delivered r" and "length rows = length (filter answered posts)"
    and "\<forall>p \<in> set posts. \<not> accepted p" and "log_status_code row = 500"
    and "log_retry_count row = m" and "posts = [] \<or> length posts = Suc m"
  shows "ended m (rows @ [row]) posts (map backoff [0 ..< m])"
proof -
  have "\<exists>n \<le> m. map backoff [0 ..< m] = map backoff [0 ..< n]" by blast
  moreover have "length posts \<le> Suc m" using assms(6) by auto
  ultimately show ?thesis
    unfolding ended_def using assms by simp
qed

lemma ended_delivered:
  assumes "\<forall>r \<in> set rows. \<not> delivered r" and "length rows = length (filter answered posts)"
    and "delivered row" and "answered post" and "accepted post"
    and "length posts \<le> m" and "n \<le> m"
  shows "ended m (rows @ [row]) (posts @ [post]) (map backoff [0 ..< n])"
proof -
  have "\<exists>k \<le> m. map backoff [0 ..< n] = map backoff [0 ..< k]" using assms(7) by blast
  then show ?thesis
    unfolding ended_def using assms by simp
qed

text \<open>
  One attempt of a delivery that is midway: either a timer is set for the next attempt, and
  the delivery is midway again, or no timer is set and the delivery has ended.
\<close>

lemma tryDelivery_step:
  assumes mid: "midway s d" and m: "maxRetries d = this_maxRetries s"
  shows "retries d < maxRetries d
           \<and> timers (tryDelivery env d s)
               = timers s @ [(backoff (retries d), d\<lparr>retries := retries d + 1\<rparr>)]
           \<and> midway (tryDelivery env d s) (d\<lparr>retries := retries d + 1\<rparr>)
         \<or> timers (tryDelivery env d s) = timers s \<and> finished (tryDelivery env d s) (oid d)"
proof -
  obtain r s1 where dw: "deliverWebhook env d s = (r, s1)"
    by (cases "deliverWebhook env d s")
  from mid have le: "retries d \<le> maxRetries d"
    and nd: "\<forall>r \<in> set (owned (oid d) (webhook_logs s)). \<not> delivered r"
    and len: "length (owned (oid d) (webhook_logs s))
         = length (filter answered (owned (oid d) (http_posts s)))"
    and na: "\<forall>p \<in> set (owned (oid d) (http_posts s)). \<not> accepted p"
    and nokey: "secretKey d = None \<longrightarrow> owned (oid d) (http_posts s) = []"
    and key: "secretKey d \<noteq> None \<longrightarrow> length (owned (oid d) (http_posts s)) = retries d"
    and dls: "owned (oid d) (delays s) = map backoff [0 ..< retries d]"
    by (simp_all add: midway_def)
  show ?thesis
  proof (cases r)
    case (Inr ok)
    from deliverWebhook_succeeds [OF dw [unfolded Inr]] obtain row post
      where s1: "s1 = s\<lparr>http_posts := http_posts s @ [(oid d, post)],
            webhook_logs := webhook_logs s @ [(oid d, row)]\<rparr>"
        and f: "delivered row" "answered post" "accepted post" "secretKey d \<noteq> None"
      by blast
    have t: "tryDelivery env d s = s1"
      using dw Inr by (simp add: tryDelivery_def)
    have "length (owned (oid d) (http_posts s)) \<le> this_maxRetries s"
      using key f(4) le m by simp
    with nd len f(1,2,3) le m
    have "ended (this_maxRetries s) (owned (oid d) (webhook_logs s) @ [row])
      (owned (oid d) (http_posts s) @ [post]) (map backoff [0 ..< retries d])"
      by (intro ended_delivered) simp_all
    then have "finished (tryDelivery env d s) (oid d)"
      by (simp add: finished_def t s1 dls)
    moreover have "timers (tryDelivery env d s) = timers s"
      by (simp add: t s1)
    ultimately show ?thesis by blast
  next
    case (Inl e)
    from deliverWebhook_fails [OF dw [unfolded Inl]] obtain rows posts
      where s1: "s1 = s\<lparr>http_posts := http_posts s @ map (Pair (oid d)) posts,
            webhook_logs := webhook_logs s @ map (Pair (oid d)) rows\<rparr>"
        and f: "length rows = length (filter answered posts)"
          "\<forall>r \<in> set rows. \<not> delivered r" "\<forall>p \<in> set posts. \<not> accepted p"
          "secretKey d = None \<longrightarrow> posts = []" "secretKey d \<noteq> None \<longrightarrow> length posts = 1"
      by blast
    show ?thesis
    proof (cases "retries d < maxRetries d")
      case True
      let ?d' = "d\<lparr>retries := retries d + 1\<rparr>"
      have t: "tryDelivery env d s =
          s1\<lparr>timers := timers s1 @ [(backoff (retries d), ?d')],
             delays := delays s1 @ [(oid d, backoff (retries d))]\<rparr>"
        using dw Inl True by (simp add: tryDelivery_def retryOrFail_def Let_def backoff_def)
      have "midway (tryDelivery env d s) ?d'"
        unfolding midway_def t s1 using True nd len na nokey key dls f
        by (cases "secretKey d") auto
      moreover have "timers (tryDelivery env d s) = timers s @ [(backoff (retries d), ?d')]"
        by (simp add: t s1)
      ultimately show ?thesis using True by blast
    next
      case False
      with le m have r: "retries d = this_maxRetries s" by simp
      let ?row = "\<lparr>log_webhook_id = webhookId d, log_event_type = eventType d,
             log_payload = env_stringify env (payload d), log_status_code = 500,
             log_response_time_ms = 0,
             log_error_message = (if message e = [] then None else Some (message e)),
             log_retry_count = retries d\<rparr>"
      have t: "tryDelivery env d s = s1\<lparr>webhook_logs := webhook_logs s1 @ [(oid d, ?row)]\<rparr>"
        using dw Inl False by (simp add: tryDelivery_def retryOrFail_def logWebhookDelivery_def)
      have "owned (oid d) (http_posts s) @ posts = []
          \<or> length (owned (oid d) (http_posts s) @ posts) = Suc (this_maxRetries s)"
        using nokey key f(4,5) r by (cases "secretKey d") auto
      with nd len na f(1,2,3) r
      have "ended (this_maxRetries s) ((owned (oid d) (webhook_logs s) @ rows) @ [?row])
          (owned (oid d) (http_posts s) @ posts) (map backoff [0 ..< this_maxRetries s])"
        by (intro ended_failed) auto
      then have "finished (tryDelivery env d s) (oid d)"
        by (simp add: finished_def t s1 dls r)
      moreover have "timers (tryDelivery env d s) = timers s"
        by (simp add: t s1)
      ultimately show ?thesis by blast
    qed
  qed
qed

lemma midway_frame:
  assumes "owned (oid d) (webhook_logs s') = owned (oid d) (webhook_logs s)"
    and "owned (oid d) (http_posts s') = owned (oid d) (http_posts s)"
    and "owned (oid d) (delays s') = owned (oid d) (delays s)"
  shows "midway s' d = midway s d"
  by (simp add: midway_def assms)

lemma finished_frame:
  assumes "owned j (webhook_logs s') = owned j (webhook_logs s)"
    and "owned j (http_posts s') = owned j (http_posts s)"
    and "owned j (delays s') = owned j (delays s)"
    and "this_maxRetries s' = this_maxRetries s"
  shows "finished s' j = finished s j"
  by (simp add: finished_def assms)

text \<open>The invariant is kept by one attempt of a delivery that is midway and not waiting.\<close>

lemma engine_inv_tryDelivery:
  assumes q: "eventQueue s = []" and dist: "distinct (waiting s)"
    and tm: "\<forall>t \<in> set (timers s). oid (snd t) < next_oid s
            \<and> maxRetries (snd t) = this_maxRetries s \<and> midway s (snd t)"
    and fin: "\<forall>j < next_oid s. j \<notin> set (waiting s) \<longrightarrow> j \<noteq> oid d \<longrightarrow> finished s j"
    and unborn: "\<forall>j \<ge> next_oid s. owned j (webhook_logs s) = [] \<and> owned j (http_posts s) = []
            \<and> owned j (delays s) = []"
    and d: "oid d < next_oid s" "oid d \<notin> set (waiting s)" "maxRetries d = this_maxRetries s"
      "midway s d"
  shows "engine_inv (tryDelivery env d s)"
proof -
  let ?s' = "tryDelivery env d s"
  note fr = tryDelivery_frame [where env = env and d = d and s = s]
  have other: "midway ?s' (snd t) = midway s (snd t)" if "t \<in> set (timers s)" for t
  proof -
    from that have "oid (snd t) \<in> set (waiting s)" by (simp add: waiting_def)
    with d(2) have "oid (snd t) \<noteq> oid d" by metis
    then show ?thesis by (intro midway_frame) (simp_all add: fr)
  qed
  have fin': "finished ?s' j" if "j < next_oid s" "j \<notin> set (waiting s)" "j \<noteq> oid d" for j
  proof -
    from fin that have "finished s j" by blast
    moreover have "finished ?s' j = finished s j"
      using that(3) by (intro finished_frame) (simp_all add: fr)
    ultimately show ?thesis by simp
  qed
  have unborn': "owned j (webhook_logs ?s') = [] \<and> owned j (http_posts ?s') = []
            \<and> owned j (delays ?s') = []" if "j \<ge> next_oid s" for j
  proof -
    from that d(1) have "j \<noteq> oid d" by auto
    with unborn that show ?thesis by (simp add: fr)
  qed
  from tryDelivery_step [OF d(4) d(3), of env]
  show ?thesis
  proof
    assume a: "retries d < maxRetries d
           \<and> timers ?s' = timers s @ [(backoff (retries d), d\<lparr>retries := retries d + 1\<rparr>)]
           \<and> midway ?s' (d\<lparr>retries := retries d + 1\<rparr>)"
    then have w: "waiting ?s' = waiting s @ [oid d]"
      by (simp add: waiting_def)
    show ?thesis
      unfolding engine_inv_def
    proof (intro conjI ballI allI impI)
      show "eventQueue ?s' = []" using q by (simp add: eventQueue_tryDelivery)
      show "distinct (waiting ?s')" using w dist d(2) by simp
    next
      fix t assume "t \<in> set (timers ?s')"
      with a consider (old) "t \<in> set (timers s)"
        | (new) "t = (backoff (retries d), d\<lparr>retries := retries d + 1\<rparr>)"
        by auto
      then have "oid (snd t) < next_oid ?s' \<and> maxRetries (snd t) = this_maxRetries ?s'
          \<and> midway ?s' (snd t)"
      proof cases
        case old
        with tm have "oid (snd t) < next_oid s \<and> maxRetries (snd t) = this_maxRetries s
            \<and> midway s (snd t)"
          by blast
        with other [OF old] show ?thesis by (simp add: fr)
      next
        case new
        with a d(1,3) show ?thesis by (simp add: fr)
      qed
      then show "oid (snd t) < next_oid ?s'" "maxRetries (snd t) = this_maxRetries ?s'"
        "midway ?s' (snd t)"
        by simp_all
    next
      fix j assume "j < next_oid ?s'" "j \<notin> set (waiting ?s')"
      then show "finished ?s' j" using fin' w by (simp add: fr)
    next
      fix j assume "next_oid ?s' \<le> j"
      then show "owned j (webhook_logs ?s') = []" "owned j (http_posts ?s') = []"
        "owned j (delays ?s') = []"
        using unborn' by (simp_all add: fr)
    qed
  next
    assume a: "timers ?s' = timers s \<and> finished ?s' (oid d)"
    then have w: "waiting ?s' = waiting s"
      by (simp add: waiting_def)
    show ?thesis
      unfolding engine_inv_def
    proof (intro conjI ballI allI impI)
      show "eventQueue ?s' = []" using q by (simp add: eventQueue_tryDelivery)
      show "distinct (waiting ?s')" using w dist by simp
    next
      fix t assume "t \<in> set (timers ?s')"
      with a have old: "t \<in> set (timers s)" by simp
      with tm have "oid (snd t) < next_oid s \<and> maxRetries (snd t) = this_maxRetries s
          \<and> midway s (snd t)"
        by blast
      with other [OF old] show "oid (snd t) < next_oid ?s'"
        "maxRetries (snd t) = this_maxRetries ?s'" "midway ?s' (snd t)"
        by (simp_all add: fr)
    next
      fix j assume "j < next_oid ?s'" "j \<notin> set (waiting ?s')"
      then show "finished ?s' j" using fin' a w by (cases "j = oid d") (auto simp add: fr)
    next
      fix j assume "next_oid ?s' \<le> j"
      then show "owned j (webhook_logs ?s') = []" "owned j (http_posts ?s') = []"
        "owned j (delays ?s') = []"
        using unborn' by (simp_all add: fr)
    qed
  qed
qed

lemma midway_update [simp]:
  "midway (s\<lparr>timers := ts\<rparr>) d = midway s d"
  "midway (s\<lparr>next_oid := n\<rparr>) d = midway s d"
  by (simp_all add: midway_def)

lemma finished_update [simp]:
  "finished (s\<lparr>timers := ts\<rparr>) j = finished s j"
  "finished (s\<lparr>next_oid := n\<rparr>) j = finished s j"
  by (simp_all add: finished_def)

lemma waiting_update [simp]:
  "waiting (s\<lparr>timers := ts\<rparr>) = map (\<lambda>t. oid (snd t)) ts"
  "waiting (s\<lparr>next_oid := n\<rparr>) = waiting s"
  by (simp_all add: waiting_def)

lemma engine_inv_constructed: "engine_inv (WebhookManager m t)"
  by (simp add: engine_inv_def WebhookManager_def waiting_def)

lemma engine_inv_trigger:
  assumes "engine_inv s"
  shows "engine_inv (queueWebhookDelivery env webhook ev p s)"
proof -
  obtain i u k where webhook: "webhook = (i, u, k)" by (cases webhook)
  let ?d = "\<lparr>oid = next_oid s, webhookId = i, url = u, eventType = ev, payload = p,
             secretKey = k, retries = 0, maxRetries = this_maxRetries s\<rparr>"
  let ?s0 = "s\<lparr>next_oid := next_oid s + 1\<rparr>"
  from assms have q: "eventQueue s = []" and dist: "distinct (waiting s)"
    and tm: "\<forall>t \<in> set (timers s). oid (snd t) < next_oid s
            \<and> maxRetries (snd t) = this_maxRetries s \<and> midway s (snd t)"
    and fin: "\<forall>j < next_oid s. j \<notin> set (waiting s) \<longrightarrow> finished s j"
    and unborn: "\<forall>j \<ge> next_oid s. owned j (webhook_logs s) = [] \<and> owned j (http_posts s) = []
            \<and> owned j (delays s) = []"
    by (simp_all add: engine_inv_def)
  have run: "queueWebhookDelivery env webhook ev p s = tryDelivery env ?d ?s0"
    using q processQueue_single [of ?s0 env ?d]
    by (simp add: queueWebhookDelivery_def webhook Let_def)
  have fresh: "next_oid s \<notin> set (waiting s)"
    using tm by (auto simp add: waiting_def)
  have "midway ?s0 ?d"
    using unborn by (simp add: midway_def)
  moreover have "\<forall>j < next_oid ?s0. j \<notin> set (waiting ?s0) \<longrightarrow> j \<noteq> oid ?d \<longrightarrow> finished ?s0 j"
    using fin by (simp add: less_Suc_eq)
  moreover have "\<forall>t \<in> set (timers ?s0). oid (snd t) < next_oid ?s0
            \<and> maxRetries (snd t) = this_maxRetries ?s0 \<and> midway ?s0 (snd t)"
    using tm by (simp add: less_Suc_eq)
  ultimately have "engine_inv (tryDelivery env ?d ?s0)"
    using q dist unborn fresh by (intro engine_inv_tryDelivery) simp_all
  then show ?thesis by (simp only: run)
qed

lemma engine_inv_timeout:
  assumes "engine_inv s" and ts: "timers s = before @ (delay, d) # after"
  shows "engine_inv (fireTimer env d (s\<lparr>timers := before @ after\<rparr>))"
proof -
  let ?s0 = "s\<lparr>timers := before @ after\<rparr>"
  from assms(1) have q: "eventQueue s = []" and dist: "distinct (waiting s)"
    and tm: "\<forall>t \<in> set (timers s). oid (snd t) < next_oid s
            \<and> maxRetries (snd t) = this_maxRetries s \<and> midway s (snd t)"
    and fin: "\<forall>j < next_oid s. j \<notin> set (waiting s) \<longrightarrow> finished s j"
    and unborn: "\<forall>j \<ge> next_oid s. owned j (webhook_logs s) = [] \<and> owned j (http_posts s) = []
            \<and> owned j (delays s) = []"
    by (simp_all add: engine_inv_def)
  have w: "waiting s = map (\<lambda>t. oid (snd t)) before @ oid d # map (\<lambda>t. oid (snd t)) after"
    by (simp add: waiting_def ts)
  have d: "oid d < next_oid s" "maxRetries d = this_maxRetries s" "midway s d"
    using tm ts by simp_all
  have gone: "oid d \<notin> set (waiting ?s0)" and dist0: "distinct (waiting ?s0)"
    using dist w by auto
  have sub: "set (waiting s) = insert (oid d) (set (waiting ?s0))"
    using w by auto
  have "\<forall>j < next_oid ?s0. j \<notin> set (waiting ?s0) \<longrightarrow> j \<noteq> oid d \<longrightarrow> finished ?s0 j"
    using fin sub by simp
  moreover have "\<forall>t \<in> set (timers ?s0). oid (snd t) < next_oid ?s0
            \<and> maxRetries (snd t) = this_maxRetries ?s0 \<and> midway ?s0 (snd t)"
    using tm ts by auto
  ultimately have "engine_inv (tryDelivery env d ?s0)"
    using q dist0 unborn gone d by (intro engine_inv_tryDelivery) simp_all
  moreover have "fireTimer env d ?s0 = tryDelivery env d ?s0"
    using q by (intro fireTimer_idle) simp
  ultimately show ?thesis by simp
qed

text \<open>The invariant holds in every state the manager can be in.\<close>

lemma running_inv: "running env s \<Longrightarrow> engine_inv s"
proof (induction rule: running.induct)
  case (constructed m t)
  show ?case by (rule engine_inv_constructed)
next
  case (step s s')
  from step.hyps(2) step.IH show ?case
    by (cases rule: event_loop.cases) (simp_all add: engine_inv_trigger engine_inv_timeout)
qed

text \<open>Every pending timer runs out: the run that takes them oldest first is a run of the
  event loop and ends with no delivery waiting.\<close>

lemma running_runTimers:
  "running env s \<Longrightarrow> running env (runTimers env s) \<and> waiting (runTimers env s) = []"
proof (induction env s rule: runTimers.induct)
  case (1 env s)
  show ?case
  proof (cases "timers s")
    case Nil
    with "1.prems" show ?thesis by (simp add: runTimers_idle waiting_def)
  next
    case (Cons t rest)
    obtain delay d where t: "t = (delay, d)" by (cases t)
    have "event_loop env s (fireTimer env d (s\<lparr>timers := [] @ rest\<rparr>))"
      using Cons t by (intro event_loop.timeout [of s "[]" delay d rest]) simp
    with "1.prems" have "running env (fireTimer env d (s\<lparr>timers := rest\<rparr>))"
      by (auto intro: running.step)
    from "1.IH" [OF Cons t [symmetric] this] Cons t show ?thesis
      by (simp add: runTimers.simps [of env s])
  qed
qed

lemma next_oid_processQueue:
  "next_oid (processQueue env s) = next_oid s
   \<and> this_maxRetries (processQueue env s) = this_maxRetries s"
proof (induction env s rule: processQueue.induct)
  case (1 env s)
  show ?case
  proof (cases "eventQueue s")
    case Nil
    then show ?thesis by (simp add: processQueue.simps)
  next
    case (Cons d rest)
    let ?s' = "tryDelivery env d (s\<lparr>eventQueue := rest\<rparr>)"
    have n: "next_oid ?s' = next_oid s" "this_maxRetries ?s' = this_maxRetries s"
      by (simp_all add: tryDelivery_frame)
    show ?thesis
    proof (cases "length (eventQueue ?s') > 0")
      case True
      have "processQueue env s = processQueue env ?s'"
        using Cons True by (subst processQueue.simps) (simp add: Let_def)
      with "1.IH" [OF Cons refl True] n show ?thesis by simp
    next
      case False
      have "processQueue env s = ?s'"
        using Cons False by (subst processQueue.simps) (simp add: Let_def)
      with n show ?thesis by simp
    qed
  qed
qed

lemma next_oid_runTimers:
  "next_oid (runTimers env s) = next_oid s
   \<and> this_maxRetries (runTimers env s) = this_maxRetries s"
proof (induction env s rule: runTimers.induct)
  case (1 env s)
  show ?case
  proof (cases "timers s")
    case Nil
    then show ?thesis by (simp add: runTimers_idle)
  next
    case (Cons t rest)
    obtain delay d where t: "t = (delay, d)" by (cases t)
    from "1.IH" [OF Cons t [symmetric]] Cons t show ?thesis
      by (simp add: runTimers.simps [of env s] fireTimer_def next_oid_processQueue)
  qed
qed

text \<open>Every delivery built so far either waits for a retry, midway, or has ended.\<close>

lemma running_delivery:
  assumes "running env s" and "j < next_oid s"
  obtains (waits) t where "t \<in> set (timers s)" and "oid (snd t) = j"
      and "maxRetries (snd t) = this_maxRetries s" and "midway s (snd t)"
    | (over) "j \<notin> set (waiting s)" and "finished s j"
proof (cases "j \<in> set (waiting s)")
  case True
  then obtain t where "t \<in> set (timers s)" and "oid (snd t) = j"
    by (auto simp add: waiting_def)
  moreover from running_inv [OF assms(1)] this(1)
  have "maxRetries (snd t) = this_maxRetries s \<and> midway s (snd t)"
    by (simp add: engine_inv_def)
  ultimately show ?thesis using waits by blast
next
  case False
  with running_inv [OF assms(1)] assms(2) have "finished s j"
    by (simp add: engine_inv_def)
  with False show ?thesis by (rule over)
qed





lemma pending_timeout:
  assumes "timers s = before @ (delay, d) # after"
  shows "pending (fireTimer env d (s\<lparr>timers := before @ after\<rparr>)) < pending s"
proof -
  have "pending (fireTimer env d (s\<lparr>timers := before @ after\<rparr>))
          \<le> pending (s\<lparr>timers := before @ after, eventQueue := eventQueue s @ [d]\<rparr>)"
    unfolding fireTimer_def using pending_processQueue [of env] by simp
  also have "\<dots> < pending s"
    using assms by (simp add: pending_def)
  finally show ?thesis .
qed

text \<open>
  C1, as the code has it. In every state the manager can be in between two attempts,
  whatever other deliveries are under way, a delivery that has been queued and does not
  wait for a retry has written at least one row, and the last row it
  wrote records its end; but it wrote a row for every POST that was answered, so it has as
  many rows as answered POSTs when it ended delivered (the last row, and no other, has
  status 200 or 204) and one more when it ended failed (the last row has status 500 and
  the retry count \<open>maxRetries\<close>). And every delivery comes to that point: each timer that
  runs out, whichever it is, lowers \<open>pending\<close>, so in whatever order the timers run out,
  after at most \<open>pending s\<close> callbacks no delivery waits; \<open>runTimers\<close> is one such run.
\<close>

theorem delivery_rows:
  assumes "running env s" and "j < next_oid s"
  shows "(j \<notin> set (waiting s) \<longrightarrow>
           owned j (webhook_logs s) \<noteq> []
           \<and> (\<forall>r \<in> set (butlast (owned j (webhook_logs s))). \<not> delivered r)
           \<and> (delivered (last (owned j (webhook_logs s)))
                \<and> length (owned j (webhook_logs s))
                    = length (filter answered (owned j (http_posts s)))
              \<or> log_status_code (last (owned j (webhook_logs s))) = 500
                \<and> log_retry_count (last (owned j (webhook_logs s))) = this_maxRetries s
                \<and> length (owned j (webhook_logs s))
                    = Suc (length (filter answered (owned j (http_posts s))))))
         \<and> (\<forall>before delay d after. timers s = before @ (delay, d) # after \<longrightarrow>
               pending (fireTimer env d (s\<lparr>timers := before @ after\<rparr>)) < pending s)
         \<and> running env (runTimers env s)
         \<and> next_oid (runTimers env s) = next_oid s
         \<and> waiting (runTimers env s) = []"
proof -
  have "owned j (webhook_logs s) \<noteq> []
         \<and> (\<forall>r \<in> set (butlast (owned j (webhook_logs s))). \<not> delivered r)
         \<and> (delivered (last (owned j (webhook_logs s)))
              \<and> length (owned j (webhook_logs s))
                  = length (filter answered (owned j (http_posts s)))
            \<or> log_status_code (last (owned j (webhook_logs s))) = 500
              \<and> log_retry_count (last (owned j (webhook_logs s))) = this_maxRetries s
              \<and> length (owned j (webhook_logs s))
                  = Suc (length (filter answered (owned j (http_posts s)))))"
    if "j \<notin> set (waiting s)"
  proof -
    from running_inv [OF assms(1)] assms(2) that have "finished s j"
      by (simp add: engine_inv_def)
    then show ?thesis
      unfolding finished_def ended_def by blast
  qed
  moreover have "\<forall>before delay d after. timers s = before @ (delay, d) # after \<longrightarrow>
               pending (fireTimer env d (s\<lparr>timers := before @ after\<rparr>)) < pending s"
    by (intro allI impI) (rule pending_timeout)
  ultimately show ?thesis
    using running_runTimers [OF assms(1)] next_oid_runTimers [of env s] by blast
qed
text \<open>On an idle engine the event loop takes a delivery through \<open>saga\<close>.\<close>

lemma runTimers_saga:
  assumes "eventQueue s = []" and "timers s = []"
  shows "runTimers env (fireTimer env d s) = saga env d s"
  using assms
proof (induction env d s rule: saga.induct)
  case (1 env d s)
  obtain r s' where dw: "deliverWebhook env d s = (r, s')"
    by (cases "deliverWebhook env d s")
  have q': "eventQueue s' = []" and t': "timers s' = []"
    using deliverWebhook_frame(1,2) [of env d s] dw "1.prems" by simp_all
  have fire: "fireTimer env d s = tryDelivery env d s"
    using "1.prems"(1) by (rule fireTimer_idle)
  show ?case
  proof (cases r)
    case (Inr ok)
    with dw t' show ?thesis
      by (simp add: fire tryDelivery_def runTimers_idle saga.simps [of env d s])
  next
    case (Inl e)
    show ?thesis
    proof (cases "retries d < maxRetries d")
      case False
      with dw Inl t' show ?thesis
        by (simp add: fire tryDelivery_def retryOrFail_def runTimers_idle saga.simps [of env d s])
    next
      case True
      let ?d' = "d\<lparr>retries := retries d + 1\<rparr>"
      let ?s3 = "s'\<lparr>delays := delays s' @ [(oid d, setTimeout_ms (2 ^ (retries d + 1) * 1000))]\<rparr>"
      have tried: "tryDelivery env d s
          = ?s3\<lparr>timers := [(setTimeout_ms (2 ^ (retries d + 1) * 1000), ?d')]\<rparr>"
        using dw Inl True t' by (simp add: tryDelivery_def retryOrFail_def Let_def)
      have "runTimers env (tryDelivery env d s) = runTimers env (fireTimer env ?d' ?s3)"
        by (subst runTimers.simps) (simp add: tried timers_idle t')
      also have "\<dots> = saga env ?d' ?s3"
        using "1.IH" [OF dw [symmetric] Inl True] q' t' by simp
      also have "\<dots> = saga env d s"
        using dw Inl True by (simp add: saga.simps [of env d s])
      finally show ?thesis by (simp add: fire)
    qed
  qed
qed

lemma queue_is_saga:
  assumes "eventQueue s = []" and "timers s = []"
  shows "runTimers env (queueWebhookDelivery env (i, u, k) ev p s) =
     saga env \<lparr>oid = next_oid s, webhookId = i, url = u, eventType = ev, payload = p,
                secretKey = k, retries = 0, maxRetries = this_maxRetries s\<rparr>
       (s\<lparr>next_oid := next_oid s + 1\<rparr>)"
  using runTimers_saga [of "s\<lparr>next_oid := next_oid s + 1\<rparr>" env] assms
  by (simp add: queueWebhookDelivery_def fireTimer_def Let_def)

text \<open>A subscriber that answers every POST with the same refused status: the rows written
  are one per attempt and one for the failure, and every retry is used.\<close>

lemma saga_always_refused:
  assumes "\<And>r. env_post env (d\<lparr>retries := r\<rparr>) = Response status statusText"
    and "status \<noteq> 200" and "status \<noteq> 204" and "secretKey d = Some k"
  shows "map log_status_code (owned (oid d) (webhook_logs (saga env d s))) =
           map log_status_code (owned (oid d) (webhook_logs s))
             @ replicate (Suc (budget d)) status @ [500]
         \<and> map log_retry_count (owned (oid d) (webhook_logs (saga env d s))) =
           map log_retry_count (owned (oid d) (webhook_logs s))
             @ [retries d ..< retries d + Suc (budget d)] @ [retries d + budget d]
         \<and> owned (oid d) (http_posts (saga env d s)) =
           owned (oid d) (http_posts s) @ replicate (Suc (budget d)) (Response status statusText)
         \<and> owned (oid d) (delays (saga env d s)) =
           owned (oid d) (delays s) @ map backoff [retries d ..< retries d + budget d]"
  using assms
proof (induction env d s rule: saga.induct)
  case (1 env d s)
  from "1.prems"(1) [of "retries d"] have post: "env_post env d = Response status statusText"
    by simp
  let ?s' = "s\<lparr>http_posts := http_posts s @ [(oid d, Response status statusText)],
           webhook_logs := logWebhookDelivery (env_stringify env) (oid d) (webhookId d)
             (eventType d) (payload d) status statusText (retries d) (webhook_logs s)\<rparr>"
  have dw: "deliverWebhook env d s =
      (Inl (Error (''Webhook returned '' @ dec status @ '': '' @ statusText)), ?s')"
    using post "1.prems"(2,3,4)
    by (simp add: deliverWebhook_def generateSignature_def Let_def)
  show ?case
  proof (cases "retries d < maxRetries d")
    case False
    with dw show ?thesis
      by (simp add: saga.simps [of env d s] logWebhookDelivery_def budget_def)
  next
    case True
    let ?d' = "d\<lparr>retries := retries d + 1\<rparr>"
    let ?s3 = "?s'\<lparr>delays := delays ?s' @ [(oid d, setTimeout_ms (2 ^ (retries d + 1) * 1000))]\<rparr>"
    have same: "saga env d s = saga env ?d' ?s3"
      using dw True by (simp add: saga.simps [of env d s])
    have "\<And>r. env_post env (?d'\<lparr>retries := r\<rparr>) = Response status statusText"
      using "1.prems"(1) by simp
    moreover have "secretKey ?d' = Some k" using "1.prems"(4) by simp
    ultimately have "map log_status_code (owned (oid ?d') (webhook_logs (saga env ?d' ?s3))) =
           map log_status_code (owned (oid ?d') (webhook_logs ?s3))
             @ replicate (Suc (budget ?d')) status @ [500]
         \<and> map log_retry_count (owned (oid ?d') (webhook_logs (saga env ?d' ?s3))) =
           map log_retry_count (owned (oid ?d') (webhook_logs ?s3))
             @ [retries ?d' ..< retries ?d' + Suc (budget ?d')] @ [retries ?d' + budget ?d']
         \<and> owned (oid ?d') (http_posts (saga env ?d' ?s3)) =
           owned (oid ?d') (http_posts ?s3) @ replicate (Suc (budget ?d')) (Response status statusText)
         \<and> owned (oid ?d') (delays (saga env ?d' ?s3)) =
           owned (oid ?d') (delays ?s3) @ map backoff [retries ?d' ..< retries ?d' + budget ?d']"
      using "1.prems"(2,3) by (intro "1.IH" [OF dw [symmetric] refl True])
    moreover have "budget d = Suc (budget ?d')"
      using True by (simp add: budget_def)
    ultimately show ?thesis
      unfolding same
      by (simp add: logWebhookDelivery_def upt_rec [of "retries d"] backoff_def
          replicate_append_same)
  qed
qed

lemma next_oid_queue:
  "next_oid (queueWebhookDelivery env webhook ev p s) = Suc (next_oid s)
   \<and> this_maxRetries (queueWebhookDelivery env webhook ev p s) = this_maxRetries s"
  by (cases webhook) (simp add: queueWebhookDelivery_def Let_def next_oid_processQueue)

text \<open>The delivery of one event by a new manager to a subscriber that always refuses.\<close>

lemma refused_run:
  assumes "\<And>d. env_post env d = Response status statusText"
    and "status \<noteq> 200" and "status \<noteq> 204"
  shows "running env (runTimers env (queueWebhookDelivery env (i, u, Some k) ev p (WebhookManager m t)))"
    and "waiting (runTimers env (queueWebhookDelivery env (i, u, Some k) ev p (WebhookManager m t))) = []"
    and "next_oid (runTimers env (queueWebhookDelivery env (i, u, Some k) ev p (WebhookManager m t))) = 1"
    and "this_maxRetries (runTimers env (queueWebhookDelivery env (i, u, Some k) ev p (WebhookManager m t))) = m"
    and "map log_status_code (owned 0 (webhook_logs
           (runTimers env (queueWebhookDelivery env (i, u, Some k) ev p (WebhookManager m t)))))
         = replicate (Suc m) status @ [500]"
    and "map log_retry_count (owned 0 (webhook_logs
           (runTimers env (queueWebhookDelivery env (i, u, Some k) ev p (WebhookManager m t)))))
         = [0 ..< Suc m] @ [m]"
    and "owned 0 (http_posts
           (runTimers env (queueWebhookDelivery env (i, u, Some k) ev p (WebhookManager m t))))
         = replicate (Suc m) (Response status statusText)"
    and "owned 0 (delays
           (runTimers env (queueWebhookDelivery env (i, u, Some k) ev p (WebhookManager m t))))
         = map backoff [0 ..< m]"
proof -
  let ?s = "WebhookManager m t :: 'a engine"
  let ?q = "queueWebhookDelivery env (i, u, Some k) ev p ?s"
  let ?d = "\<lparr>oid = 0, webhookId = i, url = u, eventType = ev, payload = p,
             secretKey = Some k, retries = 0, maxRetries = m\<rparr>"
  have "running env ?q"
    by (rule running.step [OF running.constructed event_loop.trigger])
  from running_runTimers [OF this]
  show "running env (runTimers env ?q)" and "waiting (runTimers env ?q) = []"
    by simp_all
  show "next_oid (runTimers env ?q) = 1"
    by (simp add: next_oid_runTimers next_oid_queue WebhookManager_def)
  show "this_maxRetries (runTimers env ?q) = m"
    by (simp add: next_oid_runTimers next_oid_queue WebhookManager_def)
  have run: "runTimers env ?q = saga env ?d (?s\<lparr>next_oid := 1\<rparr>)"
    using queue_is_saga [of ?s env i u "Some k" ev p] by (simp add: WebhookManager_def)
  have b: "budget ?d = m" by (simp add: budget_def)
  from saga_always_refused [of env ?d status statusText k "?s\<lparr>next_oid := 1\<rparr>"] assms
  have all: "map log_status_code (owned 0 (webhook_logs (saga env ?d (?s\<lparr>next_oid := 1\<rparr>))))
        = replicate (Suc m) status @ [500]
      \<and> map log_retry_count (owned 0 (webhook_logs (saga env ?d (?s\<lparr>next_oid := 1\<rparr>))))
        = [0 ..< Suc m] @ [m]
      \<and> owned 0 (http_posts (saga env ?d (?s\<lparr>next_oid := 1\<rparr>)))
        = replicate (Suc m) (Response status statusText)
      \<and> owned 0 (delays (saga env ?d (?s\<lparr>next_oid := 1\<rparr>))) = map backoff [0 ..< m]"
    by (simp add: b WebhookManager_def)
  from all show "map log_status_code (owned 0 (webhook_logs (runTimers env ?q)))
         = replicate (Suc m) status @ [500]"
    by (simp only: run)
  from all show "map log_retry_count (owned 0 (webhook_logs (runTimers env ?q)))
         = [0 ..< Suc m] @ [m]"
    by (simp only: run)
  from all show "owned 0 (http_posts (runTimers env ?q))
      = replicate (Suc m) (Response status statusText)"
    by (simp only: run)
  from all show "owned 0 (delays (runTimers env ?q)) = map backoff [0 ..< m]"
    by (simp only: run)
qed


theorem delivery_rows_witness:
  "owned 0 (webhook_logs (runTimers
          \<lparr>env_hmac = (\<lambda>k m. []), env_stringify = (\<lambda>p. p),
            env_post = (\<lambda>d. Response 503 ''Service Unavailable'')\<rparr>
          (queueWebhookDelivery
            \<lparr>env_hmac = (\<lambda>k m. []), env_stringify = (\<lambda>p. p),
              env_post = (\<lambda>d. Response 503 ''Service Unavailable'')\<rparr>
            (7, ''https://example.com/hook'', Some ''k'') ''message_sent'' ''{}''
            new_WebhookManager))) \<noteq> []
   \<and> log_status_code (last (owned 0 (webhook_logs (runTimers
          \<lparr>env_hmac = (\<lambda>k m. []), env_stringify = (\<lambda>p. p),
            env_post = (\<lambda>d. Response 503 ''Service Unavailable'')\<rparr>
          (queueWebhookDelivery
            \<lparr>env_hmac = (\<lambda>k m. []), env_stringify = (\<lambda>p. p),
              env_post = (\<lambda>d. Response 503 ''Service Unavailable'')\<rparr>
            (7, ''https://example.com/hook'', Some ''k'') ''message_sent'' ''{}''
            new_WebhookManager))))) = 500
   \<and> length (owned 0 (webhook_logs (runTimers
          \<lparr>env_hmac = (\<lambda>k m. []), env_stringify = (\<lambda>p. p),
            env_post = (\<lambda>d. Response 503 ''Service Unavailable'')\<rparr>
          (queueWebhookDelivery
            \<lparr>env_hmac = (\<lambda>k m. []), env_stringify = (\<lambda>p. p),
              env_post = (\<lambda>d. Response 503 ''Service Unavailable'')\<rparr>
            (7, ''https://example.com/hook'', Some ''k'') ''message_sent'' ''{}''
            new_WebhookManager)))) = 5"
proof -
  let ?env = "\<lparr>env_hmac = (\<lambda>k m. []), env_stringify = (\<lambda>p. p),
            env_post = (\<lambda>d. Response 503 ''Service Unavailable'')\<rparr> :: string env"
  let ?F = "runTimers ?env (queueWebhookDelivery ?env
      (7, ''https://example.com/hook'', Some ''k'') ''message_sent'' ''{}''
      (WebhookManager 3 30000))"
  note run = refused_run [of ?env 503 "''Service Unavailable''" 7 "''https://example.com/hook''"
      "''k''" "''message_sent''" "''{}''" 3 30000, simplified]
  have "0 < next_oid ?F" and nw: "0 \<notin> set (waiting ?F)"
    by (simp_all add: run)
  from delivery_rows [OF run(1) this(1)] nw
  have rows: "owned 0 (webhook_logs ?F) \<noteq> []"
    and fin: "delivered (last (owned 0 (webhook_logs ?F)))
              \<and> length (owned 0 (webhook_logs ?F))
                  = length (filter answered (owned 0 (http_posts ?F)))
            \<or> log_status_code (last (owned 0 (webhook_logs ?F))) = 500
              \<and> log_retry_count (last (owned 0 (webhook_logs ?F))) = this_maxRetries ?F
              \<and> length (owned 0 (webhook_logs ?F))
                  = Suc (length (filter answered (owned 0 (http_posts ?F))))"
    by blast+
  have posts: "owned 0 (http_posts ?F) = replicate 4 (Response 503 ''Service Unavailable'')"
    using run(7) by simp
  have "\<not> delivered (last (owned 0 (webhook_logs ?F)))"
  proof
    assume d: "delivered (last (owned 0 (webhook_logs ?F)))"
    from rows have "last (map log_status_code (owned 0 (webhook_logs ?F)))
        = log_status_code (last (owned 0 (webhook_logs ?F)))"
      by (simp add: last_map)
    with run(5) have "log_status_code (last (owned 0 (webhook_logs ?F))) = 500" by simp
    with d show False by (simp add: delivered_def)
  qed
  with fin have "log_status_code (last (owned 0 (webhook_logs ?F))) = 500
      \<and> length (owned 0 (webhook_logs ?F)) = 5"
    by (auto simp add: posts)
  with rows show ?thesis by (simp add: new_WebhookManager_def)
qed

text \<open>
  C1, as the specification states it, fails. A subscriber that answers every POST with 503
  gets four POSTs from the default manager, and the delivery leaves five rows with a
  failure status: one per attempt, with retry counts 0 to 3, and the row of the failure
  itself.
\<close>

theorem always_503_writes_five_rows:
  "map log_status_code (owned 0 (webhook_logs (runTimers
          \<lparr>env_hmac = (\<lambda>k m. []), env_stringify = (\<lambda>p. p),
            env_post = (\<lambda>d. Response 503 ''Service Unavailable'')\<rparr>
          (queueWebhookDelivery
            \<lparr>env_hmac = (\<lambda>k m. []), env_stringify = (\<lambda>p. p),
              env_post = (\<lambda>d. Response 503 ''Service Unavailable'')\<rparr>
            (7, ''https://example.com/hook'', Some ''k'') ''message_sent'' ''{}''
            new_WebhookManager)))) = [503, 503, 503, 503, 500]
   \<and> map log_retry_count (owned 0 (webhook_logs (runTimers
          \<lparr>env_hmac = (\<lambda>k m. []), env_stringify = (\<lambda>p. p),
            env_post = (\<lambda>d. Response 503 ''Service Unavailable'')\<rparr>
          (queueWebhookDelivery
            \<lparr>env_hmac = (\<lambda>k m. []), env_stringify = (\<lambda>p. p),
              env_post = (\<lambda>d. Response 503 ''Service Unavailable'')\<rparr>
            (7, ''https://example.com/hook'', Some ''k'') ''message_sent'' ''{}''
            new_WebhookManager)))) = [0, 1, 2, 3, 3]"
proof -
  let ?env = "\<lparr>env_hmac = (\<lambda>k m. []), env_stringify = (\<lambda>p. p),
            env_post = (\<lambda>d. Response 503 ''Service Unavailable'')\<rparr> :: string env"
  note run = refused_run [of ?env 503 "''Service Unavailable''" 7 "''https://example.com/hook''"
      "''k''" "''message_sent''" "''{}''" 3 30000, simplified]
  have "replicate (Suc 3) (503 :: nat) = [503, 503, 503, 503]" "[0 ..< Suc 3] = [0, 1, 2, 3]"
    by (simp_all add: numeral_3_eq_3)
  with run(5,6) show ?thesis
    by (simp add: new_WebhookManager_def)
qed

text \<open>
  C2, as the code has it. After a failed attempt a retry is scheduled exactly while
  \<open>retries < maxRetries\<close>, and otherwise the failure row is written. So in every state the
  manager can be in between two attempts a delivery has made at most \<open>maxRetries + 1\<close> POSTs, and at most
  \<open>maxRetries\<close> while it waits for a retry; and a delivery that has made a POST, has had
  none accepted and does not wait has made \<open>maxRetries + 1\<close> POSTs (four with the default
  of 3: the first try and three retries), has had \<open>maxRetries\<close> timers set, and its last
  row has status 500 and the retry count \<open>maxRetries\<close>.
\<close>

theorem all_posts_fail_uses_every_retry:
  assumes "running env s" and "j < next_oid s"
  shows "length (owned j (http_posts s)) \<le> this_maxRetries s + 1
         \<and> (j \<in> set (waiting s) \<longrightarrow> length (owned j (http_posts s)) \<le> this_maxRetries s)
         \<and> (j \<notin> set (waiting s) \<and> owned j (http_posts s) \<noteq> []
              \<and> (\<forall>p \<in> set (owned j (http_posts s)). \<not> accepted p) \<longrightarrow>
                length (owned j (http_posts s)) = this_maxRetries s + 1
                \<and> length (owned j (delays s)) = this_maxRetries s
                \<and> log_status_code (last (owned j (webhook_logs s))) = 500
                \<and> log_retry_count (last (owned j (webhook_logs s))) = this_maxRetries s)
         \<and> (\<forall>d s' e. fst (deliverWebhook env d s') = Inl e \<longrightarrow>
               (length (timers (tryDelivery env d s')) = Suc (length (timers s'))
                  \<longleftrightarrow> retries d < maxRetries d)
               \<and> (length (webhook_logs (tryDelivery env d s'))
                    = Suc (length (webhook_logs (snd (deliverWebhook env d s'))))
                  \<longleftrightarrow> \<not> retries d < maxRetries d))"
proof -
  have bound: "length (owned j (http_posts s)) \<le> this_maxRetries s + 1
         \<and> (j \<in> set (waiting s) \<longrightarrow> length (owned j (http_posts s)) \<le> this_maxRetries s)"
    using assms
  proof (cases rule: running_delivery)
    case (waits t)
    then have "length (owned j (http_posts s)) \<le> this_maxRetries s"
      by (cases "secretKey (snd t)") (auto simp add: midway_def)
    then show ?thesis by simp
  next
    case over
    then show ?thesis by (simp add: finished_def ended_def)
  qed
  have fails: "length (owned j (http_posts s)) = this_maxRetries s + 1
                \<and> length (owned j (delays s)) = this_maxRetries s
                \<and> log_status_code (last (owned j (webhook_logs s))) = 500
                \<and> log_retry_count (last (owned j (webhook_logs s))) = this_maxRetries s"
    if "j \<notin> set (waiting s)" "owned j (http_posts s) \<noteq> []"
      "\<forall>p \<in> set (owned j (http_posts s)). \<not> accepted p"
  proof -
    from running_inv [OF assms(1)] assms(2) that(1) have "finished s j"
      by (simp add: engine_inv_def)
    moreover have "\<not> accepted (last (owned j (http_posts s)))"
      using that(2,3) by simp
    ultimately show ?thesis
      using that(2) unfolding finished_def ended_def by auto
  qed
  have step: "(length (timers (tryDelivery env d s')) = Suc (length (timers s'))
                  \<longleftrightarrow> retries d < maxRetries d)
               \<and> (length (webhook_logs (tryDelivery env d s'))
                    = Suc (length (webhook_logs (snd (deliverWebhook env d s'))))
                  \<longleftrightarrow> \<not> retries d < maxRetries d)"
    if failed: "fst (deliverWebhook env d s') = Inl e" for d s' e
  proof -
    obtain s'' where dw: "deliverWebhook env d s' = (Inl e, s'')"
      using failed by (cases "deliverWebhook env d s'") auto
    from deliverWebhook_frame(2) [of env d s'] dw have "timers s'' = timers s'" by simp
    with dw show ?thesis
      by (simp add: tryDelivery_def retryOrFail_def Let_def logWebhookDelivery_def)
  qed
  from step have "\<forall>d s' e. fst (deliverWebhook env d s') = Inl e \<longrightarrow>
               (length (timers (tryDelivery env d s')) = Suc (length (timers s'))
                  \<longleftrightarrow> retries d < maxRetries d)
               \<and> (length (webhook_logs (tryDelivery env d s'))
                    = Suc (length (webhook_logs (snd (deliverWebhook env d s'))))
                  \<longleftrightarrow> \<not> retries d < maxRetries d)"
    by (intro allI impI)
  with bound fails show ?thesis by (intro conjI impI) simp_all
qed

theorem all_posts_fail_uses_every_retry_witness:
  "length (owned 0 (http_posts (runTimers
          \<lparr>env_hmac = (\<lambda>k m. []), env_stringify = (\<lambda>p. p),
            env_post = (\<lambda>d. Response 503 ''Service Unavailable'')\<rparr>
          (queueWebhookDelivery
            \<lparr>env_hmac = (\<lambda>k m. []), env_stringify = (\<lambda>p. p),
              env_post = (\<lambda>d. Response 503 ''Service Unavailable'')\<rparr>
            (7, ''https://example.com/hook'', Some ''k'') ''message_sent'' ''{}''
            new_WebhookManager)))) \<le> 4
   \<and> log_status_code (last (owned 0 (webhook_logs (runTimers
          \<lparr>env_hmac = (\<lambda>k m. []), env_stringify = (\<lambda>p. p),
            env_post = (\<lambda>d. Response 503 ''Service Unavailable'')\<rparr>
          (queueWebhookDelivery
            \<lparr>env_hmac = (\<lambda>k m. []), env_stringify = (\<lambda>p. p),
              env_post = (\<lambda>d. Response 503 ''Service Unavailable'')\<rparr>
            (7, ''https://example.com/hook'', Some ''k'') ''message_sent'' ''{}''
            new_WebhookManager))))) = 500
   \<and> log_retry_count (last (owned 0 (webhook_logs (runTimers
          \<lparr>env_hmac = (\<lambda>k m. []), env_stringify = (\<lambda>p. p),
            env_post = (\<lambda>d. Response 503 ''Service Unavailable'')\<rparr>
          (queueWebhookDelivery
            \<lparr>env_hmac = (\<lambda>k m. []), env_stringify = (\<lambda>p. p),
              env_post = (\<lambda>d. Response 503 ''Service Unavailable'')\<rparr>
            (7, ''https://example.com/hook'', Some ''k'') ''message_sent'' ''{}''
            new_WebhookManager))))) = 3"
proof -
  let ?env = "\<lparr>env_hmac = (\<lambda>k m. []), env_stringify = (\<lambda>p. p),
            env_post = (\<lambda>d. Response 503 ''Service Unavailable'')\<rparr> :: string env"
  let ?F = "runTimers ?env (queueWebhookDelivery ?env
      (7, ''https://example.com/hook'', Some ''k'') ''message_sent'' ''{}''
      (WebhookManager 3 30000))"
  note run = refused_run [of ?env 503 "''Service Unavailable''" 7 "''https://example.com/hook''"
      "''k''" "''message_sent''" "''{}''" 3 30000, simplified]
  have j: "0 < next_oid ?F" by (simp add: run)
  note all = all_posts_fail_uses_every_retry [OF run(1) j]
  have hyp: "0 \<notin> set (waiting ?F) \<and> owned 0 (http_posts ?F) \<noteq> []
      \<and> (\<forall>p \<in> set (owned 0 (http_posts ?F)). \<not> accepted p)"
    by (simp add: run)
  from all [THEN conjunct1] have "length (owned 0 (http_posts ?F)) \<le> 4"
    by (simp add: run)
  moreover from all [THEN conjunct2, THEN conjunct2, THEN conjunct1] hyp
  have "log_status_code (last (owned 0 (webhook_logs ?F))) = 500
      \<and> log_retry_count (last (owned 0 (webhook_logs ?F))) = 3"
    by (simp add: run)
  ultimately show ?thesis by (simp add: new_WebhookManager_def)
qed

text \<open>
  C2, as the specification states it, fails: where \<open>maxAttempts = 3\<close> would allow three
  POSTs and two retries, the default manager makes four POSTs and sets three timers.
\<close>

theorem always_503_posts_four_times:
  "length (owned 0 (http_posts (runTimers
          \<lparr>env_hmac = (\<lambda>k m. []), env_stringify = (\<lambda>p. p),
            env_post = (\<lambda>d. Response 503 ''Service Unavailable'')\<rparr>
          (queueWebhookDelivery
            \<lparr>env_hmac = (\<lambda>k m. []), env_stringify = (\<lambda>p. p),
              env_post = (\<lambda>d. Response 503 ''Service Unavailable'')\<rparr>
            (7, ''https://example.com/hook'', Some ''k'') ''message_sent'' ''{}''
            new_WebhookManager)))) = 4
   \<and> length (owned 0 (delays (runTimers
          \<lparr>env_hmac = (\<lambda>k m. []), env_stringify = (\<lambda>p. p),
            env_post = (\<lambda>d. Response 503 ''Service Unavailable'')\<rparr>
          (queueWebhookDelivery
            \<lparr>env_hmac = (\<lambda>k m. []), env_stringify = (\<lambda>p. p),
              env_post = (\<lambda>d. Response 503 ''Service Unavailable'')\<rparr>
            (7, ''https://example.com/hook'', Some ''k'') ''message_sent'' ''{}''
            new_WebhookManager)))) = 3"
proof -
  let ?env = "\<lparr>env_hmac = (\<lambda>k m. []), env_stringify = (\<lambda>p. p),
            env_post = (\<lambda>d. Response 503 ''Service Unavailable'')\<rparr> :: string env"
  note run = refused_run [of ?env 503 "''Service Unavailable''" 7 "''https://example.com/hook''"
      "''k''" "''message_sent''" "''{}''" 3 30000, simplified]
  from run(7,8) show ?thesis
    by (simp add: new_WebhookManager_def)
qed




section \<open>Properties of the anti-ban manager\<close>

lemma max_limit_refreshWindow [simp]: "max_limit (refreshWindow now d w) = max_limit w"
  by (simp add: refreshWindow_def)

lemma max_limit_bump [simp]: "max_limit (bump w) = max_limit w"
  by (simp add: bump_def)

lemma snd_canSendMessage:
  "snd (canSendMessage cid now m) =
     (case m cid of None \<Rightarrow> m | Some l \<Rightarrow> m(cid \<mapsto> l\<lparr>limits := refreshLimits now (limits l)\<rparr>))"
  by (simp add: canSendMessage_def Let_def split: option.splits)

lemma ceilings_ok_refresh [simp]:
  "ceilings_ok (l\<lparr>limits := refreshLimits now (limits l)\<rparr>) = ceilings_ok l"
  by (simp add: ceilings_ok_def refreshLimits_def)

lemma ceilings_ok_record:
  "ceilings_ok (l\<lparr>limits := \<lparr>perMinute = bump (perMinute (limits l)),
      perHour = bump (perHour (limits l)), perDay = bump (perDay (limits l))\<rparr>\<rparr>) = ceilings_ok l"
  by (simp add: ceilings_ok_def)

lemma ceilings_ok_count [simp]:
  "ceilings_ok (l\<lparr>suspiciousActivityCount := n\<rparr>) = ceilings_ok l"
  by (simp add: ceilings_ok_def)

lemma ceilings_ok_protect:
  "ceilings_ok l \<Longrightarrow> ceilings_ok (l\<lparr>limits := (limits l)\<lparr>perMinute := (perMinute (limits l))
            \<lparr>max_limit := max 5 (max_limit (perMinute (limits l)) / 2)\<rparr>\<rparr>\<rparr>)"
  by (auto simp add: ceilings_ok_def)

lemma triggerProtectiveMeasures_ok:
  assumes "\<And>c l. m c = Some l \<Longrightarrow> ceilings_ok l"
    and "triggerProtectiveMeasures cid m c = Some l"
  shows "ceilings_ok l"
proof (cases "m cid")
  case None
  with assms show ?thesis by (simp add: triggerProtectiveMeasures_def)
next
  case (Some l0)
  show ?thesis
  proof (cases "c = cid")
    case True
    with Some assms(2) have "l = l0\<lparr>limits := (limits l0)\<lparr>perMinute := (perMinute (limits l0))
            \<lparr>max_limit := max 5 (max_limit (perMinute (limits l0)) / 2)\<rparr>\<rparr>\<rparr>"
      by (simp add: triggerProtectiveMeasures_def)
    with assms(1) [OF Some] show ?thesis by (simp add: ceilings_ok_protect)
  next
    case False
    with Some assms show ?thesis by (simp add: triggerProtectiveMeasures_def)
  qed
qed

lemma reachable_ceilings:
  assumes "reachable m" and "m c = Some l"
  shows "ceilings_ok l"
  using assms
proof (induction arbitrary: c l rule: reachable.induct)
  case start
  then show ?case by simp
next
  case (initialize m cid org t1 t2 t3)
  then show ?case
    by (cases "c = cid") (auto simp add: initializeRateLimiter_def Let_def ceilings_ok_def)
next
  case (check m cid now)
  then show ?case
    by (cases "c = cid"; cases "m cid") (auto simp add: snd_canSendMessage)
next
  case (record_send m cid)
  then show ?case
    by (cases "c = cid"; cases "m cid") (auto simp add: recordMessageSend_def ceilings_ok_record)
next
  case (detect m cid act)
  show ?case
  proof (cases "m cid")
    case None
    with detect show ?thesis by (simp add: detectSuspiciousActivity_def)
  next
    case (Some l0)
    let ?m' = "m(cid \<mapsto> l0\<lparr>suspiciousActivityCount := suspiciousActivityCount l0 + 1\<rparr>)"
    have ok': "\<And>c l. ?m' c = Some l \<Longrightarrow> ceilings_ok l"
      using detect.IH Some by (auto split: if_splits)
    from detect.prems Some
    consider "m c = Some l" | "?m' c = Some l" | "triggerProtectiveMeasures cid ?m' c = Some l"
      by (auto simp add: detectSuspiciousActivity_def Let_def split: if_splits)
    then show ?thesis
    proof cases
      case 1
      then show ?thesis by (rule detect.IH)
    next
      case 2
      then show ?thesis by (rule ok')
    next
      case 3
      with ok' show ?thesis by (rule triggerProtectiveMeasures_ok)
    qed
  qed
next
  case (protect m cid)
  then show ?case by (auto intro: triggerProtectiveMeasures_ok)
qed

lemma canSendMessage_allowed:
  assumes "m cid = Some l" and "allowed (fst (canSendMessage cid now m))"
  shows "\<not> exhausted (perMinute (refreshLimits now (limits l)))
         \<and> \<not> exhausted (perHour (refreshLimits now (limits l)))
         \<and> \<not> exhausted (perDay (refreshLimits now (limits l)))"
  using assms
  by (simp add: canSendMessage_def Let_def exhausted_def split: if_splits)

lemma below_ceiling_bump:
  assumes "\<not> exhausted w" and "max_limit w \<in> \<int>"
  shows "of_nat (current (bump w)) \<le> max_limit w"
proof -
  from assms(2) obtain k :: int where k: "max_limit w = of_int k"
    by (auto elim: Ints_cases)
  from assms(1) have "(of_nat (current w) :: rat) < of_int k"
    by (simp add: exhausted_def k)
  then have "(of_int (int (current w)) :: rat) < of_int k" by simp
  then have "int (current w) < k" by (simp only: of_int_less_iff)
  then have "int (current w + 1) \<le> k" by simp
  then have "(of_int (int (current w + 1)) :: rat) \<le> of_int k" by (simp only: of_int_le_iff)
  then show ?thesis by (simp add: bump_def k)
qed

lemma ceilings_ok_Ints:
  assumes "ceilings_ok l"
  shows "max_limit (perMinute (limits l)) \<in> \<int>" and "max_limit (perHour (limits l)) \<in> \<int>"
    and "max_limit (perDay (limits l)) \<in> \<int>"
  using assms by (auto simp add: ceilings_ok_def)

lemma record_sends:
  assumes "m cid = Some l"
  shows "((recordMessageSend cid) ^^ n) m cid =
     Some (l\<lparr>limits := \<lparr>perMinute = (perMinute (limits l))\<lparr>current := current (perMinute (limits l)) + n\<rparr>,
                          perHour = (perHour (limits l))\<lparr>current := current (perHour (limits l)) + n\<rparr>,
                          perDay = (perDay (limits l))\<lparr>current := current (perDay (limits l)) + n\<rparr>\<rparr>\<rparr>)"
proof (induction n)
  case 0
  then show ?case using assms by simp
next
  case (Suc n)
  then show ?case by (simp add: recordMessageSend_def bump_def)
qed

text \<open>
  C5, as the code has it. In every state the manager can reach: when an admission check
  returns allowed, each window of the client has, after the refresh the check starts with,
  a count below its ceiling; and when the send is recorded on the state the check has
  left, with no other recording for the client in between, each count is at most its
  ceiling.
\<close>

theorem admitted_within_ceilings:
  assumes "reachable m" and "allowed (fst (canSendMessage cid now m))"
  shows "(\<forall>l. snd (canSendMessage cid now m) cid = Some l \<longrightarrow>
            (\<forall>w \<in> set (windows l). of_nat (current w) < max_limit w))
         \<and> (\<forall>l. recordMessageSend cid (snd (canSendMessage cid now m)) cid = Some l \<longrightarrow>
            (\<forall>w \<in> set (windows l). of_nat (current w) \<le> max_limit w))"
proof (cases "m cid")
  case None
  then show ?thesis
    by (simp add: snd_canSendMessage recordMessageSend_def)
next
  case (Some l0)
  let ?l1 = "l0\<lparr>limits := refreshLimits now (limits l0)\<rparr>"
  have m1: "snd (canSendMessage cid now m) cid = Some ?l1"
    using Some by (simp add: snd_canSendMessage)
  note free = canSendMessage_allowed [OF Some assms(2)]
  have "reachable (snd (canSendMessage cid now m))"
    using assms(1) by (rule reachable.check)
  then have "ceilings_ok ?l1" using m1 by (rule reachable_ceilings)
  note ints = ceilings_ok_Ints [OF this]
  have a: "\<forall>w \<in> set (windows ?l1). of_nat (current w) < max_limit w"
    using free by (simp add: windows_def exhausted_def)
  have b: "\<forall>w \<in> set (windows (?l1\<lparr>limits := \<lparr>perMinute = bump (perMinute (limits ?l1)),
      perHour = bump (perHour (limits ?l1)), perDay = bump (perDay (limits ?l1))\<rparr>\<rparr>)).
        of_nat (current w) \<le> max_limit w"
    using free ints by (simp add: windows_def below_ceiling_bump)
  from a b m1 show ?thesis
    by (simp add: recordMessageSend_def)
qed

theorem admitted_within_ceilings_witness:
  "reachable (snd (initializeRateLimiter ''c1'' 7 0 0 0 Map.empty))
   \<and> allowed (fst (canSendMessage ''c1'' 1000 (snd (initializeRateLimiter ''c1'' 7 0 0 0 Map.empty))))
   \<and> (\<exists>l. recordMessageSend ''c1''
             (snd (canSendMessage ''c1'' 1000 (snd (initializeRateLimiter ''c1'' 7 0 0 0 Map.empty))))
             ''c1'' = Some l
          \<and> current (perMinute (limits l)) = 1
          \<and> of_nat (current (perMinute (limits l))) \<le> max_limit (perMinute (limits l))
          \<and> of_nat (current (perHour (limits l))) \<le> max_limit (perHour (limits l))
          \<and> of_nat (current (perDay (limits l))) \<le> max_limit (perDay (limits l)))"
proof -
  let ?m = "snd (initializeRateLimiter ''c1'' 7 0 0 0 Map.empty)"
  have r: "reachable ?m"
    by (rule reachable.initialize) (rule reachable.start)
  have a: "allowed (fst (canSendMessage ''c1'' 1000 ?m))"
    by (simp add: canSendMessage_def initializeRateLimiter_def refreshLimits_def
        refreshWindow_def Let_def)
  obtain l where l: "recordMessageSend ''c1'' (snd (canSendMessage ''c1'' 1000 ?m)) ''c1'' = Some l"
    and one: "current (perMinute (limits l)) = 1"
    by (simp add: recordMessageSend_def snd_canSendMessage initializeRateLimiter_def
        refreshLimits_def refreshWindow_def Let_def bump_def)
  from admitted_within_ceilings [OF r a] l
  have "\<forall>w \<in> set (windows l). of_nat (current w) \<le> max_limit w"
    by blast
  then have "of_nat (current (perMinute (limits l))) \<le> max_limit (perMinute (limits l))
      \<and> of_nat (current (perHour (limits l))) \<le> max_limit (perHour (limits l))
      \<and> of_nat (current (perDay (limits l))) \<le> max_limit (perDay (limits l))"
    by (simp add: windows_def)
  with r a l one show ?thesis by blast
qed

text \<open>
  C5, as the specification states it, fails: nothing ties a recording to its check. With
  19 sends recorded in the minute window, two checks are both allowed before either send
  is recorded; after the two recordings the count of the minute window is 21, above its
  ceiling of 20.
\<close>

theorem two_checks_two_sends_exceed:
  "allowed (fst (canSendMessage ''c1'' 1000
      (((recordMessageSend ''c1'') ^^ 19) (snd (initializeRateLimiter ''c1'' 7 0 0 0 Map.empty)))))
   \<and> allowed (fst (canSendMessage ''c1'' 1000 (snd (canSendMessage ''c1'' 1000
      (((recordMessageSend ''c1'') ^^ 19) (snd (initializeRateLimiter ''c1'' 7 0 0 0 Map.empty)))))))
   \<and> (\<exists>l. recordMessageSend ''c1'' (recordMessageSend ''c1''
           (snd (canSendMessage ''c1'' 1000 (snd (canSendMessage ''c1'' 1000
             (((recordMessageSend ''c1'') ^^ 19)
                (snd (initializeRateLimiter ''c1'' 7 0 0 0 Map.empty)))))))) ''c1'' = Some l
          \<and> current (perMinute (limits l)) = 21
          \<and> max_limit (perMinute (limits l)) = 20
          \<and> max_limit (perMinute (limits l)) < of_nat (current (perMinute (limits l))))"
proof -
  let ?m = "((recordMessageSend ''c1'') ^^ 19) (snd (initializeRateLimiter ''c1'' 7 0 0 0 Map.empty))"
  have "snd (initializeRateLimiter ''c1'' 7 0 0 0 Map.empty) ''c1'' =
     Some \<lparr>clientId = ''c1'',
             limits = \<lparr>perMinute = \<lparr>max_limit = 20, current = 0, window = 0\<rparr>,
                        perHour = \<lparr>max_limit = 100, current = 0, window = 0\<rparr>,
                        perDay = \<lparr>max_limit = 1000, current = 0, window = 0\<rparr>\<rparr>,
             suspiciousActivityCount = 0, adaptiveThreshold = 8 / 10\<rparr>"
    by (simp add: initializeRateLimiter_def Let_def)
  with record_sends [of "snd (initializeRateLimiter ''c1'' 7 0 0 0 Map.empty)" "''c1''" _ 19]
  have m: "?m ''c1'' =
     Some \<lparr>clientId = ''c1'',
             limits = \<lparr>perMinute = \<lparr>max_limit = 20, current = 19, window = 0\<rparr>,
                        perHour = \<lparr>max_limit = 100, current = 19, window = 0\<rparr>,
                        perDay = \<lparr>max_limit = 1000, current = 19, window = 0\<rparr>\<rparr>,
             suspiciousActivityCount = 0, adaptiveThreshold = 8 / 10\<rparr>"
    by simp
  have c1: "allowed (fst (canSendMessage ''c1'' 1000 ?m))"
    using m by (simp add: canSendMessage_def refreshLimits_def refreshWindow_def Let_def)
  have m1: "snd (canSendMessage ''c1'' 1000 ?m) ''c1'' = ?m ''c1''"
    using m by (simp add: snd_canSendMessage refreshLimits_def refreshWindow_def)
  have c2: "allowed (fst (canSendMessage ''c1'' 1000 (snd (canSendMessage ''c1'' 1000 ?m))))"
    using m m1 by (simp add: canSendMessage_def refreshLimits_def refreshWindow_def Let_def)
  have m2: "snd (canSendMessage ''c1'' 1000 (snd (canSendMessage ''c1'' 1000 ?m))) ''c1'' = ?m ''c1''"
    using m m1 by (simp add: snd_canSendMessage refreshLimits_def refreshWindow_def)
  have "recordMessageSend ''c1'' (recordMessageSend ''c1''
           (snd (canSendMessage ''c1'' 1000 (snd (canSendMessage ''c1'' 1000 ?m))))) ''c1''
      = Some \<lparr>clientId = ''c1'',
             limits = \<lparr>perMinute = \<lparr>max_limit = 20, current = 21, window = 0\<rparr>,
                        perHour = \<lparr>max_limit = 100, current = 21, window = 0\<rparr>,
                        perDay = \<lparr>max_limit = 1000, current = 21, window = 0\<rparr>\<rparr>,
             suspiciousActivityCount = 0, adaptiveThreshold = 8 / 10\<rparr>"
    using m m2 by (simp add: recordMessageSend_def bump_def)
  with c1 c2 show ?thesis by simp
qed

text \<open>
  C6, as the code has it. A blocked result names the first exhausted window, in the order
  minute, hour, day, and its \<open>retryAfter\<close> is the full length of that window in seconds
  (60, 3600, 86400), whatever time is left in it; the check allows exactly when no window
  is exhausted after the refresh.
\<close>

theorem blocked_retryAfter_is_window_length:
  assumes "m cid = Some l"
  shows "(exhausted (perMinute (refreshLimits now (limits l))) \<longrightarrow>
            fst (canSendMessage cid now m) =
              \<lparr>allowed = False, reason = Some ''Per-minute limit exceeded'',
               retryAfter = Some 60, warnings = None\<rparr>)
         \<and> (\<not> exhausted (perMinute (refreshLimits now (limits l)))
            \<and> exhausted (perHour (refreshLimits now (limits l))) \<longrightarrow>
            fst (canSendMessage cid now m) =
              \<lparr>allowed = False, reason = Some ''Per-hour limit exceeded'',
               retryAfter = Some 3600, warnings = None\<rparr>)
         \<and> (\<not> exhausted (perMinute (refreshLimits now (limits l)))
            \<and> \<not> exhausted (perHour (refreshLimits now (limits l)))
            \<and> exhausted (perDay (refreshLimits now (limits l))) \<longrightarrow>
            fst (canSendMessage cid now m) =
              \<lparr>allowed = False, reason = Some ''Per-day limit exceeded'',
               retryAfter = Some 86400, warnings = None\<rparr>)
         \<and> (allowed (fst (canSendMessage cid now m)) \<longleftrightarrow>
              \<not> exhausted (perMinute (refreshLimits now (limits l)))
              \<and> \<not> exhausted (perHour (refreshLimits now (limits l)))
              \<and> \<not> exhausted (perDay (refreshLimits now (limits l))))"
  using assms
  by (simp add: canSendMessage_def Let_def exhausted_def)

lemma twenty_sends:
  "((recordMessageSend ''c1'') ^^ 20) (snd (initializeRateLimiter ''c1'' 7 0 0 0 Map.empty)) ''c1''
     = Some \<lparr>clientId = ''c1'',
             limits = \<lparr>perMinute = \<lparr>max_limit = 20, current = 20, window = 0\<rparr>,
                        perHour = \<lparr>max_limit = 100, current = 20, window = 0\<rparr>,
                        perDay = \<lparr>max_limit = 1000, current = 20, window = 0\<rparr>\<rparr>,
             suspiciousActivityCount = 0, adaptiveThreshold = 8 / 10\<rparr>"
proof -
  have "snd (initializeRateLimiter ''c1'' 7 0 0 0 Map.empty) ''c1'' =
     Some \<lparr>clientId = ''c1'',
             limits = \<lparr>perMinute = \<lparr>max_limit = 20, current = 0, window = 0\<rparr>,
                        perHour = \<lparr>max_limit = 100, current = 0, window = 0\<rparr>,
                        perDay = \<lparr>max_limit = 1000, current = 0, window = 0\<rparr>\<rparr>,
             suspiciousActivityCount = 0, adaptiveThreshold = 8 / 10\<rparr>"
    by (simp add: initializeRateLimiter_def Let_def)
  with record_sends [of "snd (initializeRateLimiter ''c1'' 7 0 0 0 Map.empty)" "''c1''" _ 20]
  show ?thesis by simp
qed

theorem blocked_retryAfter_is_window_length_witness:
  "fst (canSendMessage ''c1'' 30000
         (((recordMessageSend ''c1'') ^^ 20) (snd (initializeRateLimiter ''c1'' 7 0 0 0 Map.empty))))
     = \<lparr>allowed = False, reason = Some ''Per-minute limit exceeded'',
        retryAfter = Some 60, warnings = None\<rparr>"
  using twenty_sends
    blocked_retryAfter_is_window_length [of
      "((recordMessageSend ''c1'') ^^ 20) (snd (initializeRateLimiter ''c1'' 7 0 0 0 Map.empty))"
      "''c1''" _ 30000]
  by (simp add: exhausted_def refreshLimits_def refreshWindow_def)

text \<open>
  C6, as the specification states it, fails: twenty sends were recorded at time 0 and the check comes
  30 seconds later, so 30 seconds are left in the minute window, and the hint is 60.
\<close>

theorem retryAfter_ignores_time_left:
  "retryAfter (fst (canSendMessage ''c1'' 30000
       (((recordMessageSend ''c1'') ^^ 20) (snd (initializeRateLimiter ''c1'' 7 0 0 0 Map.empty)))))
     = Some 60
   \<and> remainingSeconds 30000 60000
       (perMinute (limits (the ((((recordMessageSend ''c1'') ^^ 20)
          (snd (initializeRateLimiter ''c1'' 7 0 0 0 Map.empty))) ''c1'')))) = 30"
  by (simp add: twenty_sends canSendMessage_def Let_def refreshLimits_def refreshWindow_def
      remainingSeconds_def)

text \<open>
  C7, as the code has it. For the action \<open>message\<close> the delay is \<open>2000 + u * 3000\<close> ms for
  the second draw \<open>u\<close>, within 2000 to 5000, unless the first draw is below 0.10, when it is
  \<open>5000 + u * 10000\<close> ms, within 5000 to 15000; the function sleeps that delay itself and
  returns \<open>true\<close>.
\<close>

theorem message_delay_is_slept:
  assumes "0 \<le> rnd 1" and "rnd 1 < 1"
  shows "\<exists>delay. simulateHumanBehavior rnd cid ''message'' = (True, [delay])
           \<and> (rnd 0 < 1 / 10 \<longrightarrow>
                 delay = rnd 1 * 10000 + 5000 \<and> 5000 \<le> delay \<and> delay \<le> 15000)
           \<and> (\<not> rnd 0 < 1 / 10 \<longrightarrow>
                 delay = rnd 1 * 3000 + 2000 \<and> 2000 \<le> delay \<and> delay \<le> 5000)"
  using assms by (simp add: simulateHumanBehavior_def randomDelay_def)

theorem message_delay_is_slept_witness:
  "simulateHumanBehavior (\<lambda>i. if i = 0 then 1 / 20 else 1 / 4) ''c1'' ''message'' = (True, [7500])"
  using message_delay_is_slept [of "\<lambda>i. if i = 0 then 1 / 20 else 1 / 4" "''c1''"]
  by auto

text \<open>
  C7, as the specification states it, fails: the delay is not handed to the caller. With every draw
  equal to one half the call sleeps 3500 ms and its value is \<open>true\<close>.
\<close>

theorem delay_is_slept_not_returned:
  "simulateHumanBehavior (\<lambda>i. 1 / 2) ''c1'' ''message'' = (True, [3500])"
  by (simp add: simulateHumanBehavior_def randomDelay_def)







text \<open>
  C4 fails on the code: the names \<open>registerWebhook\<close> accepts are spelt with an underscore,
  so the dotted name \<open>message.sent\<close> is refused wherever the URL is accepted, and
  \<open>message_sent\<close> is registered.
\<close>

theorem dotted_event_names_rejected:
  "registerWebhook parse production secret org user address [''message.sent''] webhooks =
     (case validateWebhookUrl parse production address of
        Inl e \<Rightarrow> Inl e
      | Inr ok \<Rightarrow> Inl (Error ''Invalid events: message.sent''))
   \<and> registerWebhook parse production secret org user address [''message_sent''] webhooks =
     (case validateWebhookUrl parse production address of
        Inl e \<Rightarrow> Inl e
      | Inr ok \<Rightarrow>
          Inr (\<lparr>reg_id = length webhooks + 1, reg_url = address, reg_events = [''message_sent''],
                 reg_secretKey = secret\<rparr>,
               webhooks @ [\<lparr>row_id = length webhooks + 1, row_organization_id = org,
                             row_url = address, row_events = [''message_sent''],
                             row_secret_key = secret\<rparr>]))"
  by (simp add: registerWebhook_def validEvents_def Let_def split: sum.splits)


end
